theory Spec2Isabelle
  imports Main "HOL-Library.AList"
begin

section \<open>Python values used by \<open>ahd/cli.py\<close>\<close>

text \<open>
  A Python \<open>str\<close> is modelled as a \<open>string\<close>; every \<open>char\<close> stands for the code
  point with the same number (0 to 255), so the string methods below are the ones of
  CPython restricted to code points below 256. Strings that hold higher code points
  are outside the model.
\<close>

datatype py_error =
    KeyError "string option"
  | ValueError
  | OSError string
  | NoSectionError
  | NoOptionError
  | InterpolationSyntaxError
  | InterpolationMissingOptionError
  | InterpolationDepthError
  | ParsingError

text \<open>
  \<open>KeyError k\<close> carries the key that was looked up (\<open>None\<close> is Python's \<open>None\<close>);
  \<open>OSError p\<close> stands for every subclass of \<open>OSError\<close> raised by \<open>open\<close> on path \<open>p\<close>
  (\<open>FileNotFoundError\<close>, \<open>PermissionError\<close>); \<open>ParsingError\<close> stands for every
  error \<open>ConfigParser\<close> raises on a malformed file.
\<close>

definition isspace :: "char \<Rightarrow> bool" where
  "isspace c =
     (let n = (of_char c :: nat)
      in (9 \<le> n \<and> n \<le> 13) \<or> (28 \<le> n \<and> n \<le> 32) \<or> n = 133 \<or> n = 160)"

definition isprintable :: "char \<Rightarrow> bool" where
  "isprintable c =
     (let n = (of_char c :: nat)
      in (32 \<le> n \<and> n \<le> 126) \<or> (161 \<le> n \<and> n \<noteq> 173))"

definition strip :: "string \<Rightarrow> string" where
  "strip s = rev (dropWhile isspace (rev (dropWhile isspace s)))"

text \<open>\<open>s.split(sep)\<close> for a separator of one character: never the empty list.\<close>

fun split :: "char \<Rightarrow> string \<Rightarrow> string list" where
  "split sep [] = [[]]"
| "split sep (c # cs) =
     (if c = sep then [] # split sep cs
      else (c # hd (split sep cs)) # tl (split sep cs))"

text \<open>\<open>s.replace(a, b)\<close> for a pattern \<open>a\<close> of one character.\<close>

definition replace :: "char \<Rightarrow> string \<Rightarrow> string \<Rightarrow> string" where
  "replace a b s = concat (map (\<lambda>c. if c = a then b else [c]) s)"

definition startswith :: "string \<Rightarrow> string \<Rightarrow> bool" where
  "startswith s p = (take (length p) s = p)"

text \<open>The slice \<open>s[1:-1:]\<close>: without the first and the last character.\<close>

definition slice_1_m1 :: "string \<Rightarrow> string" where
  "slice_1_m1 s = butlast (tl s)"

text \<open>\<open>str.lower\<close> on code points below 256 (\<open>optionxform\<close> of \<open>ConfigParser\<close>).\<close>

definition lower_char :: "char \<Rightarrow> char" where
  "lower_char c =
     (let n = (of_char c :: nat)
      in if (65 \<le> n \<and> n \<le> 90) \<or> (192 \<le> n \<and> n \<le> 222 \<and> n \<noteq> 215)
         then char_of (n + 32) else c)"

definition lower :: "string \<Rightarrow> string" where
  "lower s = map lower_char s"

subsection \<open>\<open>repr\<close> of a string and \<open>str\<close> of a list of strings\<close>

definition hexdigit :: "nat \<Rightarrow> char" where
  "hexdigit n = ''0123456789abcdef'' ! (n mod 16)"

definition repr_char :: "char \<Rightarrow> char \<Rightarrow> string" where
  "repr_char quote c =
     (let n = (of_char c :: nat)
      in if c = quote \<or> c = CHR 0x5C then [CHR 0x5C, c]
         else if n = 9 then [CHR 0x5C, CHR ''t'']
         else if n = 10 then [CHR 0x5C, CHR ''n'']
         else if n = 13 then [CHR 0x5C, CHR ''r'']
         else if n < 32 \<or> n = 127 then [CHR 0x5C, CHR ''x'', hexdigit (n div 16), hexdigit n]
         else if n < 127 then [c]
         else if \<not> isprintable c then [CHR 0x5C, CHR ''x'', hexdigit (n div 16), hexdigit n]
         else [c])"

definition repr_quote :: "string \<Rightarrow> char" where
  "repr_quote s =
     (if CHR 0x27 \<in> set s \<and> CHR 0x22 \<notin> set s then CHR 0x22 else CHR 0x27)"

definition repr :: "string \<Rightarrow> string" where
  "repr s = repr_quote s # concat (map (repr_char (repr_quote s)) s) @ [repr_quote s]"

fun join :: "string \<Rightarrow> string list \<Rightarrow> string" where
  "join sep [] = []"
| "join sep [x] = x"
| "join sep (x # y # ys) = x @ sep @ join sep (y # ys)"

text \<open>
  The value of \<open>arguments["<paths>"]\<close> is a \<open>str\<close> before line 101 and, when it was not
  empty, a \<open>list\<close> of \<open>str\<close> after it. \<open>str_of\<close> is Python's \<open>str()\<close> on the two.
\<close>

datatype py_value = Str string | StrList "string list"

fun str_of :: "py_value \<Rightarrow> string" where
  "str_of (Str s) = s"
| "str_of (StrList xs) = ''['' @ join '', '' (map repr xs) @ '']''"

section \<open>The \<open>ConfigParser\<close> object behind the global \<open>config\<close>\<close>

text \<open>
  \<open>config = ConfigParser()\<close> is the in-memory registry. The class is Python's standard
  library, not code of this repository; the part of it that \<open>cli.py\<close> calls is modelled
  here after CPython 3.11: the mapping protocol (\<open>config[name]\<close>, \<open>config[name][key]\<close>,
  \<open>config[name] = {...}\<close>), iteration, \<open>write\<close>, the fallback to the \<open>DEFAULT\<close> section
  and the default \<open>BasicInterpolation\<close> of \<open>%\<close> in values. Both dictionaries keep
  insertion order, so they are association lists, updated with \<open>AList.update\<close>
  (replace in place, or append).
\<close>

record ConfigParser =
  defaults :: "(string \<times> string) list"
  sections :: "(string \<times> (string \<times> string) list) list"

definition empty_config :: ConfigParser where
  "empty_config = \<lparr>defaults = [], sections = []\<rparr>"

definition default_section :: string where
  "default_section = ''DEFAULT''"

definition optionxform :: "string \<Rightarrow> string" where
  "optionxform optionstr = lower optionstr"

definition has_section :: "ConfigParser \<Rightarrow> string \<Rightarrow> bool" where
  "has_section cp section = (map_of (sections cp) section \<noteq> None)"

subsection \<open>\<open>BasicInterpolation\<close>\<close>

text \<open>
  \<open>_KEYCRE = re.compile(r"%\(([^)]+)\)s")\<close> matched at the start of a string: the
  name between the parentheses and the rest after the match.
\<close>

definition KEYCRE_match :: "string \<Rightarrow> (string \<times> string) option" where
  "KEYCRE_match s =
     (case s of
        c0 # c1 # r \<Rightarrow>
          if c0 = CHR ''%'' \<and> c1 = CHR ''('' then
            (case dropWhile (\<lambda>c. c \<noteq> CHR '')'') r of
               _ # c2 # r' \<Rightarrow>
                 if takeWhile (\<lambda>c. c \<noteq> CHR '')'') r \<noteq> [] \<and> c2 = CHR ''s''
                 then Some (takeWhile (\<lambda>c. c \<noteq> CHR '')'') r, r') else None
             | _ \<Rightarrow> None)
          else None
      | _ \<Rightarrow> None)"

lemma KEYCRE_match_shorter:
  "KEYCRE_match s = Some (var, r') \<Longrightarrow> length r' < length s"
proof -
  assume m: "KEYCRE_match s = Some (var, r')"
  then obtain c0 c1 r c c2 where s: "s = c0 # c1 # r"
    and d: "dropWhile (\<lambda>c. c \<noteq> CHR '')'') r = c # c2 # r'"
    by (auto simp: KEYCRE_match_def split: list.splits if_splits)
  have "length (dropWhile (\<lambda>c. c \<noteq> CHR '')'') r) \<le> length r"
    by (rule length_dropWhile_le)
  with d s show ?thesis by simp
qed

text \<open>\<open>_KEYCRE.sub('', s)\<close>: every match, leftmost first, is deleted.\<close>

function KEYCRE_sub :: "string \<Rightarrow> string" where
  "KEYCRE_sub [] = []"
| "KEYCRE_sub (c # r) =
     (case KEYCRE_match (c # r) of
        Some (var, r') \<Rightarrow> KEYCRE_sub r'
      | None \<Rightarrow> c # KEYCRE_sub r)"
  by pat_completeness auto
termination
  by (relation "measure length") (auto dest: KEYCRE_match_shorter)

text \<open>\<open>value.replace('%%', '')\<close>.\<close>

fun drop_escaped_percent :: "string \<Rightarrow> string" where
  "drop_escaped_percent (c # d # r) =
     (if c = CHR ''%'' \<and> d = CHR ''%'' then drop_escaped_percent r
      else c # drop_escaped_percent (d # r))"
| "drop_escaped_percent r = r"

definition before_set :: "string \<Rightarrow> py_error + string" where
  "before_set v =
     (if CHR ''%'' \<in> set (KEYCRE_sub (drop_escaped_percent v)) then Inl ValueError
      else Inr v)"

text \<open>
  \<open>_interpolate_some\<close> with \<open>MAX_INTERPOLATION_DEPTH = 10\<close>; the \<open>while\<close> loop is the
  recursion on the rest of the string, the accumulator \<open>accum\<close> is the result.
\<close>

function interpolate_some ::
  "(string \<Rightarrow> string option) \<Rightarrow> nat \<Rightarrow> string \<Rightarrow> py_error + string" where
  "interpolate_some m depth rest =
     (if depth > 10 then Inl InterpolationDepthError
      else
        (case dropWhile (\<lambda>c. c \<noteq> CHR ''%'') rest of
           [] \<Rightarrow> Inr rest
         | p # r1 \<Rightarrow>
            (case r1 of
               [] \<Rightarrow> Inl InterpolationSyntaxError
             | c # r2 \<Rightarrow>
                 if c = CHR ''%'' then
                   (case interpolate_some m depth r2 of
                      Inl e \<Rightarrow> Inl e
                    | Inr t \<Rightarrow> Inr (takeWhile (\<lambda>c. c \<noteq> CHR ''%'') rest @ ''%'' @ t))
                 else if c = CHR ''('' then
                   (case KEYCRE_match (p # r1) of
                      None \<Rightarrow> Inl InterpolationSyntaxError
                    | Some (var, r3) \<Rightarrow>
                       (case m (optionxform var) of
                          None \<Rightarrow> Inl InterpolationMissingOptionError
                        | Some v \<Rightarrow>
                           (case (if CHR ''%'' \<in> set v then interpolate_some m (depth + 1) v
                                  else Inr v) of
                              Inl e \<Rightarrow> Inl e
                            | Inr s \<Rightarrow>
                               (case interpolate_some m depth r3 of
                                  Inl e \<Rightarrow> Inl e
                                | Inr t \<Rightarrow>
                                    Inr (takeWhile (\<lambda>c. c \<noteq> CHR ''%'') rest @ s @ t)))))
                 else Inl InterpolationSyntaxError)))"
  by pat_completeness auto
termination
proof (relation "measures [\<lambda>(m, depth, rest). 11 - depth, \<lambda>(m, depth, rest). length rest]",
    goal_cases)
  case 1
  show ?case by simp
next
  case (2 m depth rest p r1 c r2)
  have "length (dropWhile (\<lambda>c. c \<noteq> CHR ''%'') rest) \<le> length rest"
    by (rule length_dropWhile_le)
  with 2 show ?case by simp
next
  case (3 m depth rest p r1 c r2 x var r3 v)
  then have "10 - depth < 11 - depth" by arith
  then show ?case by simp
next
  case (4 m depth rest p r1 c r2 x var r3 v s)
  have "length (dropWhile (\<lambda>c. c \<noteq> CHR ''%'') rest) \<le> length rest"
    by (rule length_dropWhile_le)
  moreover have "length r3 < length (p # r1)"
    using 4 by (auto dest: KEYCRE_match_shorter)
  ultimately show ?case using 4 by simp
qed

definition before_get :: "(string \<Rightarrow> string option) \<Rightarrow> string \<Rightarrow> py_error + string" where
  "before_get m v = interpolate_some m 1 v"

subsection \<open>Reading values: \<open>config[name]\<close> and \<open>config[name][key]\<close>\<close>

definition has_option :: "ConfigParser \<Rightarrow> string \<Rightarrow> string \<Rightarrow> bool" where
  "has_option cp section opt =
     (if section = [] \<or> section = default_section
      then map_of (defaults cp) (optionxform opt) \<noteq> None
      else (case map_of (sections cp) section of
              None \<Rightarrow> False
            | Some d \<Rightarrow>
                map_of d (optionxform opt) \<noteq> None
                \<or> map_of (defaults cp) (optionxform opt) \<noteq> None))"

text \<open>\<open>_unify_values\<close>: the section's own options take priority over the defaults.\<close>

definition unify_values :: "ConfigParser \<Rightarrow> string \<Rightarrow> py_error + (string \<Rightarrow> string option)" where
  "unify_values cp section =
     (case map_of (sections cp) section of
        Some d \<Rightarrow> Inr (map_of (defaults cp) ++ map_of d)
      | None \<Rightarrow>
          if section \<noteq> default_section then Inl NoSectionError
          else Inr (map_of (defaults cp)))"

definition get :: "ConfigParser \<Rightarrow> string \<Rightarrow> string \<Rightarrow> py_error + string" where
  "get cp section opt =
     (case unify_values cp section of
        Inl err \<Rightarrow> Inl err
      | Inr d \<Rightarrow>
          (case d (optionxform opt) of
             None \<Rightarrow> Inl NoOptionError
           | Some v \<Rightarrow> before_get d v))"

text \<open>
  \<open>config[key]\<close> (\<open>__getitem__\<close>): the section proxy, here the name of its section,
  or \<open>KeyError(key)\<close>. The key is a \<open>string option\<close> because \<open>arguments["<name>"]\<close> may
  be \<open>None\<close>.
\<close>

definition getitem :: "ConfigParser \<Rightarrow> string option \<Rightarrow> py_error + string" where
  "getitem cp key =
     (case key of
        None \<Rightarrow> Inl (KeyError None)
      | Some k \<Rightarrow>
          if k \<noteq> default_section \<and> \<not> has_section cp k then Inl (KeyError (Some k))
          else Inr k)"

text \<open>\<open>proxy[key]\<close> (\<open>SectionProxy.__getitem__\<close>).\<close>

definition proxy_getitem :: "ConfigParser \<Rightarrow> string \<Rightarrow> string \<Rightarrow> py_error + string" where
  "proxy_getitem cp section key =
     (if \<not> has_option cp section key then Inl (KeyError (Some key))
      else get cp section key)"

text \<open>The expression \<open>config[name][key]\<close> of lines 107, 131, 132, 137, 138 and 141.\<close>

definition config_lookup :: "ConfigParser \<Rightarrow> string option \<Rightarrow> string \<Rightarrow> py_error + string" where
  "config_lookup cp name key =
     (case getitem cp name of
        Inl err \<Rightarrow> Inl err
      | Inr section \<Rightarrow> proxy_getitem cp section key)"

subsection \<open>Writing values: \<open>config[name] = {...}\<close>\<close>

text \<open>\<open>RawConfigParser.set\<close>: a non-empty value is checked by \<open>before_set\<close> first.\<close>

definition set_option ::
  "ConfigParser \<Rightarrow> string \<Rightarrow> string \<Rightarrow> string \<Rightarrow> py_error + ConfigParser" where
  "set_option cp section opt v =
     (case (if v \<noteq> [] then before_set v else Inr v) of
        Inl err \<Rightarrow> Inl err
      | Inr v' \<Rightarrow>
          if section = [] \<or> section = default_section
          then Inr (cp\<lparr>defaults := AList.update (optionxform opt) v' (defaults cp)\<rparr>)
          else (case map_of (sections cp) section of
                  None \<Rightarrow> Inl NoSectionError
                | Some d \<Rightarrow>
                    Inr (cp\<lparr>sections :=
                      AList.update section (AList.update (optionxform opt) v' d) (sections cp)\<rparr>)))"

text \<open>
  The loop of \<open>read_dict\<close> over the items of one section: the key goes through
  \<open>optionxform\<close>, the value through \<open>str()\<close>.
\<close>

fun set_items ::
  "ConfigParser \<Rightarrow> string \<Rightarrow> (string \<times> py_value) list \<Rightarrow> py_error + ConfigParser" where
  "set_items cp section [] = Inr cp"
| "set_items cp section ((key, v) # rest) =
     (case set_option cp section (optionxform key) (str_of v) of
        Inl err \<Rightarrow> Inl err
      | Inr cp' \<Rightarrow> set_items cp' section rest)"

text \<open>
  \<open>config[key] = items\<close> (\<open>__setitem__\<close>, then \<open>read_dict\<close>): an existing section is
  emptied first, a new one is appended; \<open>read_dict\<close> takes \<open>str(key)\<close> as the section
  name and swallows the errors of \<open>add_section\<close> for \<open>DEFAULT\<close> and for a section that
  exists.
\<close>

definition setitem ::
  "ConfigParser \<Rightarrow> string option \<Rightarrow> (string \<times> py_value) list \<Rightarrow> py_error + ConfigParser" where
  "setitem cp key items =
     (let cp1 = (case key of
                   None \<Rightarrow> cp
                 | Some k \<Rightarrow>
                     if k = default_section then cp\<lparr>defaults := []\<rparr>
                     else if has_section cp k
                       then cp\<lparr>sections := AList.update k [] (sections cp)\<rparr>
                     else cp);
          section = (case key of None \<Rightarrow> ''None'' | Some k \<Rightarrow> k);
          cp2 = (if section = default_section \<or> has_section cp1 section then cp1
                 else cp1\<lparr>sections := sections cp1 @ [(section, [])]\<rparr>)
      in set_items cp2 section items)"

subsection \<open>\<open>config.write\<close> and iteration\<close>

definition write_section :: "string \<Rightarrow> (string \<times> string) list \<Rightarrow> string" where
  "write_section section_name section_items =
     ''['' @ section_name @ '']'' @ [CHR 0x0A]
     @ concat (map (\<lambda>(key, v). key @ '' = '' @ replace (CHR 0x0A) [CHR 0x0A, CHR 0x09] v @ [CHR 0x0A])
         section_items)
     @ [CHR 0x0A]"

text \<open>The text that \<open>config.write(config_file)\<close> writes to the file.\<close>

definition config_write :: "ConfigParser \<Rightarrow> string" where
  "config_write cp =
     (if defaults cp \<noteq> [] then write_section default_section (defaults cp) else [])
     @ concat (map (\<lambda>(section, section_items). write_section section section_items) (sections cp))"

text \<open>Iterating over \<open>config\<close> yields \<open>DEFAULT\<close> first, then the section names.\<close>

definition iter :: "ConfigParser \<Rightarrow> string list" where
  "iter cp = default_section # map fst (sections cp)"

section \<open>The process and its surroundings\<close>

text \<open>
  \<open>command(name, options)\<close> of \<open>ahd/autocomplete.py\<close>, a plain pair of a name and its
  option flags.
\<close>

datatype command = command string "string list"

text \<open>
  What \<open>main\<close> reads from the host without changing it: whether \<open>os.name == "nt"\<close>,
  the directory of \<open>cli.py\<close> (\<open>os.path.dirname(__file__)\<close>), which file a path names,
  which paths \<open>open(path, "w")\<close> can write, and two functions whose code is not in
  \<open>cli.py\<close> and are therefore parameters: \<open>read_text\<close> is \<open>ConfigParser._read\<close> (what
  parsing the text of one file does to the registry, or the error it raises), and
  \<open>generate_bash_autocomplete\<close> is the function of that name imported from
  \<open>ahd/autocomplete.py\<close>.

  \<open>realpath e dir path\<close> is the file that \<open>path\<close> names for a process whose working
  directory is \<open>dir\<close>: the path resolution of the host. Two paths are the same file
  exactly when \<open>realpath\<close> gives the same name for both, so \<open>./.ahdconfig\<close> is the
  store when the process runs in the directory of \<open>cli.py\<close>.
\<close>

record env =
  nt :: bool
  dirname_file :: string
  realpath :: "string \<Rightarrow> string \<Rightarrow> string"
  writable :: "string \<Rightarrow> bool"
  read_text :: "string \<Rightarrow> ConfigParser \<Rightarrow> py_error + ConfigParser"
  generate_bash_autocomplete :: "command list \<Rightarrow> string"

definition sep :: "env \<Rightarrow> string" where
  "sep e = (if nt e then [CHR 0x5C] else ''/'')"

definition curdir :: string where
  "curdir = ''.''"

definition CONFIG_FILE_PATH :: "env \<Rightarrow> string" where
  "CONFIG_FILE_PATH e = dirname_file e @ sep e @ ''.ahdconfig''"

definition CURRENT_PATH :: string where
  "CURRENT_PATH = curdir"

text \<open>
  What \<open>main\<close> changes: the two module globals \<open>config\<close> and \<open>commands\<close>, the files
  (the name \<open>realpath\<close> gives to a file maps to its text), the shell strings handed
  to \<open>subprocess.Popen(..., shell=True)\<close>, oldest first, the shell strings whose
  child the process has waited for, and the working directory of the process.
  \<open>Popen\<close> returns as soon as the child is started, so a launch is one more entry in
  \<open>launched\<close>; waiting for a child (\<open>wait\<close>, \<open>communicate\<close>, \<open>subprocess.run\<close>) would be
  one more entry in \<open>awaited\<close>, and \<open>cli.py\<close> calls none of them. \<open>print\<close> and
  \<open>webbrowser.open_new\<close> touch none of these and are left out.
\<close>

record world =
  config :: ConfigParser
  commands :: "command list"
  files :: "string \<Rightarrow> string option"
  launched :: "string list"
  awaited :: "string list"
  cwd :: string

definition initial_commands :: "command list" where
  "initial_commands =
     [command ''docs'' [''-a'', ''--api'', ''-o'', ''--offline''], command ''register'' []]"

text \<open>The state of a fresh process: the module globals as lines 57 to 63 build them.\<close>

definition fresh :: "(string \<Rightarrow> string option) \<Rightarrow> string \<Rightarrow> world" where
  "fresh fs dir =
     \<lparr>config = empty_config, commands = initial_commands, files = fs, launched = [],
      awaited = [], cwd = dir\<rparr>"

text \<open>
  How a run of \<open>main\<close> ends: it returns, it leaves through \<open>exit()\<close>, or an exception
  leaves \<open>main\<close>. \<open>cli.py\<close> has no \<open>try\<close> statement and calls \<open>main()\<close> bare, so an
  exception that leaves \<open>main\<close> is not handled by anyone: the interpreter prints the
  traceback and the process dies. The world of \<open>Uncaught\<close> is the one in which the
  statement that raised was started.
\<close>

datatype outcome = Returned world | Exited world | Uncaught py_error world

fun world_of :: "outcome \<Rightarrow> world" where
  "world_of (Returned w) = w"
| "world_of (Exited w) = w"
| "world_of (Uncaught err w) = w"

text \<open>Statement sequencing: the next statement runs only if the last one returned.\<close>

definition and_then :: "outcome \<Rightarrow> (world \<Rightarrow> outcome) \<Rightarrow> outcome" where
  "and_then r k = (case r of Returned w \<Rightarrow> k w | Exited w \<Rightarrow> Exited w | Uncaught err w \<Rightarrow> Uncaught err w)"

subsection \<open>Files\<close>

text \<open>The file that \<open>path\<close> names for the process.\<close>

definition file_named :: "env \<Rightarrow> world \<Rightarrow> string \<Rightarrow> string" where
  "file_named e w path = realpath e (cwd w) path"

text \<open>\<open>os.path.exists(path)\<close>.\<close>

definition exists :: "env \<Rightarrow> world \<Rightarrow> string \<Rightarrow> bool" where
  "exists e w path = (files w (file_named e w path) \<noteq> None)"

text \<open>
  \<open>open(path, "r")\<close>: the text, \<open>ValueError\<close> for a path with a null character,
  \<open>OSError\<close> for a file that is not there.
\<close>

definition open_read :: "env \<Rightarrow> world \<Rightarrow> string \<Rightarrow> py_error + string" where
  "open_read e w path =
     (if CHR 0x00 \<in> set path then Inl ValueError
      else (case files w (file_named e w path) of
              None \<Rightarrow> Inl (OSError path)
            | Some txt \<Rightarrow> Inr txt))"

text \<open>\<open>with open(path, "w") as f: f.write(txt)\<close>.\<close>

definition open_write :: "env \<Rightarrow> string \<Rightarrow> string \<Rightarrow> world \<Rightarrow> outcome" where
  "open_write e path txt w =
     (if writable e path
      then Returned (w\<lparr>files := (files w)(file_named e w path \<mapsto> txt)\<rparr>)
      else Uncaught (OSError path) w)"

text \<open>Iterating over an open text file yields its lines, each with its newline.\<close>

fun lines_of :: "string \<Rightarrow> string list" where
  "lines_of [] = []"
| "lines_of (c # cs) =
     (if c = CHR 0x0A then [c] # lines_of cs
      else (case lines_of cs of [] \<Rightarrow> [[c]] | l # ls \<Rightarrow> (c # l) # ls))"

text \<open>
  \<open>ConfigParser.read(filenames)\<close> on an iterable of file names: each name is opened
  and parsed in turn; a name that cannot be opened (\<open>OSError\<close>) is skipped silently.
\<close>

fun read_names ::
  "env \<Rightarrow> world \<Rightarrow> string list \<Rightarrow> ConfigParser \<Rightarrow> py_error + ConfigParser" where
  "read_names e w [] cp = Inr cp"
| "read_names e w (filename # rest) cp =
     (case open_read e w filename of
        Inl (OSError p) \<Rightarrow> read_names e w rest cp
      | Inl err \<Rightarrow> Inl err
      | Inr txt \<Rightarrow>
          (case read_text e txt cp of
             Inl err \<Rightarrow> Inl err
           | Inr cp' \<Rightarrow> read_names e w rest cp'))"

text \<open>
  \<open>os.chdir(path)\<close>: \<open>"."\<close> names the working directory itself; an absolute path
  replaces it, any other path is taken below it.
\<close>

definition chdir :: "string \<Rightarrow> world \<Rightarrow> world" where
  "chdir path w =
     w\<lparr>cwd := (if path = curdir then cwd w
               else if startswith path ''/'' then path
               else cwd w @ ''/'' @ path)\<rparr>"

definition Popen :: "string \<Rightarrow> world \<Rightarrow> world" where
  "Popen args w = w\<lparr>launched := launched w @ [args]\<rparr>"

section \<open>\<open>cli.py\<close>\<close>

text \<open>
  The dictionary that \<open>docopt(usage, ...)\<close> returns, with the keys \<open>main\<close> reads:
  \<open>docs\<close>, \<open>register\<close>, \<open>config\<close>, \<open>--export\<close>, \<open>--import\<close>, \<open><name>\<close>, \<open><command>\<close> and
  \<open><paths>\<close>. A command word or flag is a \<open>bool\<close>, an argument is a \<open>str\<close> or \<open>None\<close>.
\<close>

record arguments =
  arg_docs :: bool
  arg_register :: bool
  arg_config :: bool
  arg_export :: bool
  arg_import :: "string option"
  arg_name :: "string option"
  arg_command :: "string option"
  arg_paths :: "string option"

text \<open>Python's truth value of a \<open>str\<close> or \<open>None\<close>.\<close>

definition truthy :: "string option \<Rightarrow> bool" where
  "truthy x = (case x of None \<Rightarrow> False | Some s \<Rightarrow> s \<noteq> [])"

text \<open>\<open>_preprocess_paths\<close>, lines 153 to 171.\<close>

definition preprocess_paths :: "string \<Rightarrow> string list" where
  "preprocess_paths paths =
     map (\<lambda>path. strip (replace (CHR 0x5C) ''/'' path)) (split (CHR '','') paths)"

text \<open>Lines 85 to 90: read the store, or create it from the registry in memory.\<close>

definition load_config :: "env \<Rightarrow> world \<Rightarrow> outcome" where
  "load_config e w =
     (if exists e w (CONFIG_FILE_PATH e) then
        (case read_names e w [CONFIG_FILE_PATH e] (config w) of
           Inl err \<Rightarrow> Uncaught err w
         | Inr cp \<Rightarrow> Returned (w\<lparr>config := cp\<rparr>))
      else open_write e (CONFIG_FILE_PATH e) (config_write (config w)) w)"

text \<open>
  Lines 110 to 127, the branch \<open>if arguments["register"]\<close>: the entry is put into the
  registry; on a host that is not Windows every section name is appended to the
  global \<open>commands\<close> and the completion script is written; then the store is written.
\<close>

definition register_command ::
  "env \<Rightarrow> string option \<Rightarrow> string \<Rightarrow> py_value \<Rightarrow> world \<Rightarrow> outcome" where
  "register_command e name cmd paths w =
     (case setitem (config w) name [(''command'', Str cmd), (''paths'', paths)] of
        Inl err \<Rightarrow> Uncaught err w
      | Inr cp \<Rightarrow>
          and_then
            (if \<not> nt e then
               (let w1 = w\<lparr>config := cp,
                          commands := commands w
                            @ map (\<lambda>custom_command. command custom_command []) (tl (iter cp))\<rparr>
                in open_write e ''/etc/bash_completion.d/ahd.sh''
                     (generate_bash_autocomplete e (commands w1)) w1)
             else Returned (w\<lparr>config := cp\<rparr>))
            (\<lambda>w2. open_write e (CONFIG_FILE_PATH e) (config_write (config w2)) w2))"

text \<open>
  Lines 136 to 138, the loop over the directories of a bracketed list: the f-string
  is evaluated (it looks \<open>config[name]['command']\<close> up), single quotes are deleted
  from the whole string, and the string goes to \<open>Popen\<close>.
\<close>

fun run_in_each :: "string option \<Rightarrow> string list \<Rightarrow> world \<Rightarrow> outcome" where
  "run_in_each name [] w = Returned w"
| "run_in_each name (current_path # rest) w =
     (case config_lookup (config w) name ''command'' of
        Inl err \<Rightarrow> Uncaught err w
      | Inr cmd \<Rightarrow>
          run_in_each name rest
            (Popen (replace (CHR 0x27) [] (''cd '' @ strip current_path @ '' && '' @ cmd @ '' '')) w))"

text \<open>
  Lines 132 to 135: the list of directories read back from a stored \<open>paths\<close> value
  that starts with a bracket.
\<close>

definition path_list :: "env \<Rightarrow> string \<Rightarrow> string list" where
  "path_list e paths =
     split (CHR '','')
       (slice_1_m1 (if nt e then replace (CHR ''/'') (sep e) paths else paths))"

text \<open>Lines 130 to 141, the branch \<open>else\<close> of \<open>if arguments["register"]\<close>.\<close>

definition dispatch :: "env \<Rightarrow> string option \<Rightarrow> world \<Rightarrow> outcome" where
  "dispatch e name w =
     (if truthy name then
        (case config_lookup (config w) name ''paths'' of
           Inl err \<Rightarrow> Uncaught err w
         | Inr paths \<Rightarrow>
             if startswith paths ''[''
             then run_in_each name (path_list e paths) w
             else (case config_lookup (config w) name ''command'' of
                     Inl err \<Rightarrow> Uncaught err w
                   | Inr cmd \<Rightarrow>
                       Returned
                         (Popen (replace (CHR 0x27) [] (''cd '' @ paths @ '' && '' @ cmd @ '' '')) w)))
      else Returned w)"

text \<open>
  Lines 143 to 150, \<open>if arguments["config"]\<close>. The export goes to
  \<open>f"{os.curdir}{os.sep}.ahdconfig"\<close>. The import opens the file and hands the open
  file, not its name, to \<open>config.read\<close>, which iterates over its argument and takes
  every item for a file name: the items of an open file are its lines.
\<close>

definition config_command :: "env \<Rightarrow> arguments \<Rightarrow> world \<Rightarrow> outcome" where
  "config_command e arguments w =
     (if arg_config arguments then
        and_then
          (if arg_export arguments
           then open_write e (curdir @ sep e @ ''.ahdconfig'') (config_write (config w)) w
           else Returned w)
          (\<lambda>w1.
             case arg_import arguments of
               None \<Rightarrow> Returned w1
             | Some path \<Rightarrow>
                 if path = [] then Returned w1
                 else (case open_read e w1 path of
                         Inl err \<Rightarrow> Uncaught err w1
                       | Inr config_file \<Rightarrow>
                           (case read_names e w1 (lines_of config_file) (config w1) of
                              Inl err \<Rightarrow> Uncaught err w1
                            | Inr cp \<Rightarrow> Returned (w1\<lparr>config := cp\<rparr>))))
      else Returned w)"

text \<open>
  Lines 98 to 104 rebind \<open>arguments["<paths>"]\<close> and \<open>arguments["<command>"]\<close>; the new
  values are \<open>paths_argument\<close> and \<open>command_argument\<close>.
\<close>

definition paths_argument :: "arguments \<Rightarrow> py_value" where
  "paths_argument arguments =
     (case arg_paths arguments of
        None \<Rightarrow> Str []
      | Some paths \<Rightarrow> if paths = [] then Str [] else StrList (preprocess_paths paths))"

definition command_argument :: "arguments \<Rightarrow> string" where
  "command_argument arguments =
     (case arg_command arguments of None \<Rightarrow> [] | Some c \<Rightarrow> c)"

text \<open>
  Lines 106 and 107: the command after the shorthand \<open>.\<close> is resolved, or the
  exception of the lookup.
\<close>

definition resolve_command :: "ConfigParser \<Rightarrow> arguments \<Rightarrow> py_error + string" where
  "resolve_command cp arguments =
     (if command_argument arguments = ''.''
      then config_lookup cp (arg_name arguments) ''command''
      else Inr (command_argument arguments))"

text \<open>
  \<open>main\<close>, lines 71 to 151. \<open>argc\<close> is \<open>len(sys.argv)\<close>. Line 106 resolves the
  shorthand \<open>.\<close> before line 109 asks whether the run registers or invokes.
\<close>

definition main :: "env \<Rightarrow> nat \<Rightarrow> arguments \<Rightarrow> world \<Rightarrow> outcome" where
  "main e argc arguments w0 =
     (if argc = 1 then Exited w0
      else
        and_then (load_config e w0)
          (\<lambda>w.
             if arg_docs arguments then Exited w
             else
               (case resolve_command (config w) arguments of
                  Inl err \<Rightarrow> Uncaught err w
                | Inr cmd \<Rightarrow>
                    and_then
                      (if arg_register arguments
                       then register_command e (arg_name arguments) cmd (paths_argument arguments) w
                       else dispatch e (arg_name arguments) w)
                      (\<lambda>w1. and_then (config_command e arguments w1)
                              (\<lambda>w2. Returned (chdir CURRENT_PATH w2))))))"

text \<open>The exception that ended a run, if one did.\<close>

fun raised :: "outcome \<Rightarrow> py_error option" where
  "raised (Uncaught err w) = Some err"
| "raised (Returned w) = None"
| "raised (Exited w) = None"

section \<open>A host and a store for the examples\<close>

text \<open>
  The registry of the specification's scenario: the command \<open>build\<close> is \<open>make all\<close> in
  the directories \<open>/a\<close> and \<open>/b\<close>. Its \<open>paths\<close> value is the text that registering
  \<open>/a,/b\<close> stores.
\<close>

definition build_registry :: ConfigParser where
  "build_registry =
     \<lparr>defaults = [],
      sections = [(''build'', [(''command'', ''make all''), (''paths'', ''['/a', '/b']'')])]\<rparr>"

text \<open>
  A registry whose command names an option that does not exist: what
  \<open>ahd register echo "echo %(foo)s" /a,/b\<close> stores.
\<close>

definition echo_registry :: ConfigParser where
  "echo_registry =
     \<lparr>defaults = [],
      sections = [(''echo'', [(''command'', ''echo %(foo)s''), (''paths'', ''['/a', '/b']'')])]\<rparr>"

text \<open>
  The registry of the specification's scenario without paths: what
  \<open>ahd register lint "eslint ."\<close> stores.
\<close>

definition lint_registry :: ConfigParser where
  "lint_registry =
     \<lparr>defaults = [], sections = [(''lint'', [(''command'', ''eslint .''), (''paths'', [])])]\<rparr>"

text \<open>The store of \<open>build_registry\<close> after its owner has put a comment on top.\<close>

definition commented_store :: string where
  "commented_store = ''# my commands'' @ [CHR 0x0A] @ config_write build_registry"

text \<open>
  An instance of the parameter \<open>read_text\<close> for the examples. It is four points of the
  parser's graph and no model of the parser: read into an empty registry, the text that
  \<open>config.write\<close> produces for \<open>build_registry\<close> gives \<open>build_registry\<close>, with or without
  a comment line on top, and the texts it produces for \<open>echo_registry\<close> and for
  \<open>lint_registry\<close> give these registries (the parser does not interpolate).
\<close>

definition example_read_text :: "string \<Rightarrow> ConfigParser \<Rightarrow> py_error + ConfigParser" where
  "example_read_text txt cp =
     (if cp \<noteq> empty_config then Inl ParsingError
      else if txt = config_write build_registry \<or> txt = commented_store then Inr build_registry
      else if txt = config_write echo_registry then Inr echo_registry
      else if txt = config_write lint_registry then Inr lint_registry
      else Inl ParsingError)"

text \<open>
  An instance of the parameter \<open>realpath\<close>: a path that starts with a slash names
  itself, any other path names the file below the working directory.
\<close>

definition example_realpath :: "string \<Rightarrow> string \<Rightarrow> string" where
  "example_realpath dir path =
     (if startswith path ''/'' then path
      else if startswith path ''./'' then dir @ ''/'' @ drop 2 path
      else dir @ ''/'' @ path)"

text \<open>An instance of the parameter \<open>generate_bash_autocomplete\<close>: the names, one per line.\<close>

definition example_generate :: "command list \<Rightarrow> string" where
  "example_generate cs = concat (map (\<lambda>c. case c of command n opts \<Rightarrow> n @ [CHR 0x0A]) cs)"

text \<open>
  A host that is not Windows, with \<open>cli.py\<close> installed in \<open>/opt/ahd\<close>: on
  \<open>posix_host\<close> every file can be written, on \<open>locked_host\<close> every file but the
  completion script.
\<close>

definition posix_host :: env where
  "posix_host =
     \<lparr>nt = False, dirname_file = ''/opt/ahd'', realpath = example_realpath,
      writable = (\<lambda>p. True),
      read_text = example_read_text, generate_bash_autocomplete = example_generate\<rparr>"

definition locked_host :: env where
  "locked_host =
     \<lparr>nt = False, dirname_file = ''/opt/ahd'', realpath = example_realpath,
      writable = (\<lambda>p. p \<noteq> ''/etc/bash_completion.d/ahd.sh''),
      read_text = example_read_text, generate_bash_autocomplete = example_generate\<rparr>"

text \<open>The dictionary of \<open>docopt\<close> with nothing given.\<close>

definition no_arguments :: arguments where
  "no_arguments =
     \<lparr>arg_docs = False, arg_register = False, arg_config = False, arg_export = False,
      arg_import = None, arg_name = None, arg_command = None, arg_paths = None\<rparr>"

text \<open>The files of a host whose store holds \<open>build_registry\<close>.\<close>

definition store_files :: "string \<Rightarrow> string option" where
  "store_files = [''/opt/ahd/.ahdconfig'' \<mapsto> config_write build_registry]"

lemma load_store_files:
  "load_config posix_host (fresh store_files dir)
   = Returned ((fresh store_files dir)\<lparr>config := build_registry\<rparr>)"
  by (simp add: load_config_def posix_host_def fresh_def store_files_def CONFIG_FILE_PATH_def
      sep_def open_read_def exists_def file_named_def example_realpath_def startswith_def
      example_read_text_def)

section \<open>Facts about the string functions\<close>

lemma split_not_Nil: "split dl s \<noteq> []"
  by (induction s) simp_all

lemma split_without_sep: "dl \<notin> set s \<Longrightarrow> split dl s = [s]"
  by (induction s) auto

lemma split_append_sep:
  "dl \<notin> set a \<Longrightarrow> split dl (a @ dl # b) = a # split dl b"
  by (induction a) auto

lemma split_elements:
  "x \<in> set (split dl s) \<Longrightarrow> dl \<notin> set x \<and> set x \<subseteq> set s"
proof (induction s arbitrary: x)
  case Nil
  then show ?case by simp
next
  case (Cons c cs)
  obtain y ys where sp: "split dl cs = y # ys"
    using split_not_Nil[of dl cs] by (cases "split dl cs") auto
  have y: "dl \<notin> set y \<and> set y \<subseteq> set cs" and ys: "\<And>z. z \<in> set ys \<Longrightarrow> dl \<notin> set z \<and> set z \<subseteq> set cs"
    using Cons.IH sp by simp_all
  show ?case
  proof (cases "c = dl")
    case True
    with Cons.prems sp have "x = [] \<or> x = y \<or> x \<in> set ys" by auto
    then show ?thesis using y ys by auto
  next
    case False
    with Cons.prems sp have "x = c # y \<or> x \<in> set ys" by auto
    then show ?thesis using y ys False by auto
  qed
qed

lemma replace_append: "replace a b (s @ t) = replace a b s @ replace a b t"
  by (simp add: replace_def)

lemma replace_Cons: "replace a b (c # s) = (if c = a then b else [c]) @ replace a b s"
  by (simp add: replace_def)

lemma replace_Nil: "replace a b [] = []"
  by (simp add: replace_def)

lemma set_replace: "set (replace a b s) \<subseteq> set s \<union> set b"
  by (induction s) (auto simp: replace_Cons replace_Nil)

lemma replace_absent: "a \<notin> set s \<Longrightarrow> replace a b s = s"
  by (induction s) (auto simp: replace_Cons replace_Nil)

lemma replace_removes: "a \<notin> set b \<Longrightarrow> a \<notin> set (replace a b s)"
  by (induction s) (auto simp: replace_Cons replace_Nil)

lemma set_strip: "set (strip s) \<subseteq> set s"
proof -
  have "set (dropWhile isspace (rev (dropWhile isspace s))) \<subseteq> set (rev (dropWhile isspace s))"
    by (rule set_dropWhileD[THEN subsetI])
  also have "\<dots> \<subseteq> set s"
    using set_dropWhileD[of _ isspace s] by auto
  finally show ?thesis by (simp add: strip_def)
qed

lemma strip_Nil: "strip [] = []"
  by (simp add: strip_def)

lemma strip_leading_space: "isspace c \<Longrightarrow> strip (c # s) = strip s"
  by (simp add: strip_def)

lemma strip_fixed:
  assumes "\<not> isspace (hd s)" and "\<not> isspace (last s)"
  shows "strip s = s"
proof (cases s)
  case Nil
  then show ?thesis by (simp add: strip_def)
next
  case (Cons c cs)
  with assms(1) have d: "dropWhile isspace s = s" by simp
  obtain x xs where r: "rev s = x # xs"
    using Cons by (cases "rev s") auto
  then have x: "x = last s"
    by (metis hd_rev list.sel(1))
  have "dropWhile isspace (x # xs) = x # xs"
    using assms(2) x by simp
  then have "dropWhile isspace (rev s) = rev s"
    by (simp only: r)
  with d show ?thesis by (simp add: strip_def)
qed

text \<open>What \<open>strip\<close> returns has no white space at either end.\<close>

lemma strip_ends:
  "strip s = [] \<or> (\<not> isspace (hd (strip s)) \<and> \<not> isspace (last (strip s)))"
proof -
  let ?r = "dropWhile isspace (rev (dropWhile isspace s))"
  show ?thesis
  proof (cases "?r = []")
    case True
    then show ?thesis by (simp add: strip_def)
  next
    case False
    then have h: "\<not> isspace (hd ?r)"
      by (simp add: hd_dropWhile)
    have l: "\<not> isspace (last ?r)"
    proof -
      obtain t where t: "rev (dropWhile isspace s) = t @ ?r"
        by (metis takeWhile_dropWhile_id)
      then have "dropWhile isspace s = rev ?r @ rev t"
        by (metis rev_append rev_rev_ident)
      moreover have "rev ?r \<noteq> []" using False by simp
      ultimately have "hd (dropWhile isspace s) = hd (rev ?r)"
        by (metis hd_append2)
      moreover have "dropWhile isspace s \<noteq> []"
        using t False by (metis append_is_Nil_conv rev_is_Nil_conv)
      ultimately have "\<not> isspace (hd (rev ?r))"
        by (metis hd_dropWhile)
      then show ?thesis using False by (simp add: hd_rev)
    qed
    from h l False show ?thesis
      by (simp add: strip_def hd_rev last_rev)
  qed
qed

lemma strip_idem: "strip (strip s) = strip s"
  using strip_ends[of s] by (auto intro: strip_fixed simp: strip_Nil)

lemma join_single_sep:
  assumes "\<And>x. x \<in> set xs \<Longrightarrow> CHR '','' \<notin> set x" and "xs \<noteq> []"
  shows "split (CHR '','') (join '', '' xs) = hd xs # map (\<lambda>x. CHR '' '' # x) (tl xs)"
  using assms
proof (induction "'', ''" xs rule: join.induct)
  case 1
  then show ?case by simp
next
  case (2 x)
  then show ?case by (simp add: split_without_sep)
next
  case (3 x y ys)
  have ih: "split (CHR '','') (join '', '' (y # ys)) = y # map (\<lambda>x. CHR '' '' # x) ys"
    using 3 by simp
  have "join '', '' (x # y # ys) = x @ CHR '','' # (CHR '' '' # join '', '' (y # ys))"
    by simp
  moreover have "CHR '','' \<notin> set x" using 3(2) by simp
  ultimately have "split (CHR '','') (join '', '' (x # y # ys))
      = x # split (CHR '','') (CHR '' '' # join '', '' (y # ys))"
    using split_append_sep[of "CHR '',''" x "CHR '' '' # join '', '' (y # ys)"] by simp
  then show ?case using ih by simp
qed

lemma set_join: "set (join dl xs) \<subseteq> set dl \<union> \<Union> (set ` set xs)"
  by (induction dl xs rule: join.induct) auto

lemma replace_join:
  "replace a b (join dl xs) = join (replace a b dl) (map (replace a b) xs)"
  by (induction dl xs rule: join.induct) (simp_all add: replace_Nil replace_append)

lemma hexdigit_cases:
  "hexdigit n \<in> set ''0123456789abcdef''"
proof -
  have "n mod 16 < length ''0123456789abcdef''" by simp
  then show ?thesis unfolding hexdigit_def by (rule nth_mem)
qed

text \<open>
  A character that is not in the string, is no quote and no character of an escape
  is not in the \<open>repr\<close> of the string.
\<close>

lemma hexdigit_differs:
  assumes "d \<notin> set ''0123456789abcdef''"
  shows "hexdigit k \<noteq> d"
  using hexdigit_cases[of k] assms by blast

lemma set_repr_char:
  "set (repr_char q c)
   \<subseteq> {c, CHR 0x5C, CHR ''t'', CHR ''n'', CHR ''r'', CHR ''x'',
        hexdigit (of_char c div 16), hexdigit (of_char c)}"
  by (simp add: repr_char_def Let_def)

lemma repr_char_keeps_out:
  assumes "d \<noteq> c" and "d \<noteq> CHR 0x5C" and "d \<notin> set ''tnrx''"
    and "d \<notin> set ''0123456789abcdef''"
  shows "d \<notin> set (repr_char q c)"
proof -
  have "d \<notin> {c, CHR 0x5C, CHR ''t'', CHR ''n'', CHR ''r'', CHR ''x'',
        hexdigit (of_char c div 16), hexdigit (of_char c)}"
    using assms(1-3) hexdigit_differs[OF assms(4), of "of_char c div 16"]
      hexdigit_differs[OF assms(4), of "of_char c"]
    by simp
  then show ?thesis using set_repr_char[of q c] by blast
qed

lemma repr_keeps_out:
  assumes "d \<notin> set s" and "d \<noteq> CHR 0x27" and "d \<noteq> CHR 0x22"
    and "d \<noteq> CHR 0x5C" and "d \<notin> set ''tnrx''" and "d \<notin> set ''0123456789abcdef''"
  shows "d \<notin> set (repr s)"
proof -
  have q: "d \<noteq> repr_quote s"
    using assms(2,3) by (simp add: repr_quote_def)
  have "d \<notin> set (repr_char (repr_quote s) c)" if "c \<in> set s" for c
  proof (rule repr_char_keeps_out)
    show "d \<noteq> c" using that assms(1) by blast
  qed (rule assms)+
  then have "d \<notin> set (concat (map (repr_char (repr_quote s)) s))"
    by auto
  with q show ?thesis by (simp add: repr_def)
qed

lemma repr_no_comma: "CHR '','' \<notin> set s \<Longrightarrow> CHR '','' \<notin> set (repr s)"
  by (rule repr_keeps_out) simp_all

lemma repr_no_percent: "CHR ''%'' \<notin> set s \<Longrightarrow> CHR ''%'' \<notin> set (repr s)"
  by (rule repr_keeps_out) simp_all

lemma preprocess_paths_elements:
  assumes "p \<in> set (preprocess_paths paths)"
  shows "CHR '','' \<notin> set p" and "CHR 0x5C \<notin> set p" and "strip p = p"
    and "c \<notin> set paths \<Longrightarrow> c \<noteq> CHR ''/'' \<Longrightarrow> c \<notin> set p"
proof -
  from assms obtain x where x: "x \<in> set (split (CHR '','') paths)"
    and p: "p = strip (replace (CHR 0x5C) ''/'' x)"
    by (auto simp: preprocess_paths_def)
  have xs: "CHR '','' \<notin> set x" "set x \<subseteq> set paths"
    using split_elements[OF x] by simp_all
  have sub: "set p \<subseteq> set x \<union> set ''/''"
    unfolding p using set_strip set_replace by fast
  show "CHR '','' \<notin> set p" using sub xs by auto
  have "CHR 0x5C \<notin> set (replace (CHR 0x5C) ''/'' x)"
    by (rule replace_removes) simp
  then show "CHR 0x5C \<notin> set p"
    unfolding p using set_strip by fast
  show "strip p = p" unfolding p by (rule strip_idem)
  show "c \<notin> set paths \<Longrightarrow> c \<noteq> CHR ''/'' \<Longrightarrow> c \<notin> set p"
    using sub xs by auto
qed


section \<open>Sequencing and the load\<close>

lemma and_then_simps:
  "and_then (Returned w) k = k w"
  "and_then (Exited w) k = Exited w"
  "and_then (Uncaught err w) k = Uncaught err w"
  by (simp_all add: and_then_def)

lemma and_then_Returned: "and_then r Returned = r"
  by (cases r) (simp_all add: and_then_def)

lemma chdir_CURRENT_PATH: "chdir CURRENT_PATH w = w"
  by (simp add: chdir_def CURRENT_PATH_def)

text \<open>
  What lines 85 to 90 leave when they return: the store is read, or it is created
  with the text of the registry in memory; nothing else changes.
\<close>

lemma load_config_returned:
  assumes "load_config e w0 = Returned w"
  shows "launched w = launched w0" and "awaited w = awaited w0" and "cwd w = cwd w0"
    and "files w = (if exists e w0 (CONFIG_FILE_PATH e) then files w0
                    else (files w0)(file_named e w0 (CONFIG_FILE_PATH e)
                           \<mapsto> config_write (config w0)))"
  using assms
  by (auto simp: load_config_def open_write_def split: sum.splits if_splits)

lemma path_list_not_Nil: "path_list e paths \<noteq> []"
  by (simp add: path_list_def split_not_Nil)

text \<open>
  A run that neither registers nor is \<open>ahd config\<close>, once the store is loaded and
  unless it is \<open>ahd docs\<close>: the shorthand is resolved, then the name is dispatched.
\<close>

lemma main_dispatch:
  assumes "argc \<noteq> 1" and "load_config e w0 = Returned w" and "\<not> arg_docs a"
    and "\<not> arg_register a" and "\<not> arg_config a"
  shows "main e argc a w0
         = (case resolve_command (config w) a of
              Inl err \<Rightarrow> Uncaught err w
            | Inr cmd \<Rightarrow> dispatch e (arg_name a) w)"
proof -
  have k: "(\<lambda>w1. and_then (config_command e a w1) (\<lambda>w2. Returned (chdir CURRENT_PATH w2)))
        = Returned"
    using assms(5) by (simp add: config_command_def and_then_simps chdir_CURRENT_PATH)
  show ?thesis
  proof (cases "resolve_command (config w) a")
    case (Inl err)
    then show ?thesis
      using assms(1-3) by (simp add: main_def and_then_simps)
  next
    case (Inr cmd)
    then show ?thesis
      using assms(1-4) by (simp add: main_def and_then_simps k and_then_Returned)
  qed
qed

section \<open>The working directory of the process\<close>

lemma cwd_and_then:
  assumes "cwd (world_of r) = x" and "\<And>w'. cwd (world_of (k w')) = cwd w'"
  shows "cwd (world_of (and_then r k)) = x"
  using assms by (cases r) (simp_all add: and_then_def)

lemma cwd_open_write: "cwd (world_of (open_write e p txt w)) = cwd w"
  by (simp add: open_write_def)

lemma cwd_load_config: "cwd (world_of (load_config e w)) = cwd w"
  by (simp add: load_config_def cwd_open_write split: sum.splits)

lemma cwd_run_in_each: "cwd (world_of (run_in_each name ds w)) = cwd w"
  by (induction ds arbitrary: w) (simp_all add: Popen_def split: sum.splits)

lemma cwd_dispatch: "cwd (world_of (dispatch e name w)) = cwd w"
  by (simp add: dispatch_def cwd_run_in_each Popen_def split: sum.splits)

lemma cwd_register_command: "cwd (world_of (register_command e name cmd paths w)) = cwd w"
proof (cases "setitem (config w) name [(''command'', Str cmd), (''paths'', paths)]")
  case (Inl err)
  then show ?thesis by (simp add: register_command_def)
next
  case (Inr cp)
  show ?thesis
    unfolding register_command_def Inr sum.case
    by (rule cwd_and_then) (simp_all add: cwd_open_write Let_def)
qed

lemma cwd_config_command: "cwd (world_of (config_command e a w)) = cwd w"
proof (cases "arg_config a")
  case False
  then show ?thesis by (simp add: config_command_def)
next
  case True
  have "cwd (world_of (and_then
          (if arg_export a
           then open_write e (curdir @ sep e @ ''.ahdconfig'') (config_write (config w)) w
           else Returned w) k)) = cwd w"
    if "\<And>w'. cwd (world_of (k w')) = cwd w'" for k
    by (rule cwd_and_then) (simp_all add: cwd_open_write that)
  then show ?thesis
    unfolding config_command_def using True
    by (simp split: option.splits sum.splits)
qed

lemma cwd_chdir_CURRENT_PATH: "cwd (chdir CURRENT_PATH w) = cwd w"
  by (simp add: chdir_def CURRENT_PATH_def)

lemma cwd_tail:
  assumes "cwd (world_of r) = x"
  shows "cwd (world_of (and_then r (\<lambda>w1. and_then (config_command e a w1)
                 (\<lambda>w2. Returned (chdir CURRENT_PATH w2))))) = x"
proof (rule cwd_and_then[OF assms])
  fix w'
  show "cwd (world_of (and_then (config_command e a w')
          (\<lambda>w2. Returned (chdir CURRENT_PATH w2)))) = cwd w'"
    by (rule cwd_and_then) (simp_all add: cwd_config_command cwd_chdir_CURRENT_PATH)
qed

text \<open>
  C10. No run of \<open>main\<close> changes the working directory of the process, however it
  ends (return, \<open>exit()\<close> or an uncaught exception) and whatever it was asked to do
  (register, invoke, export, import): the only \<open>os.chdir\<close> is the last statement, to
  \<open>CURRENT_PATH = os.curdir = "."\<close>, and every other \<open>cd\<close> is text inside a string
  handed to \<open>Popen\<close>.
\<close>

theorem main_keeps_working_directory:
  "cwd (world_of (main e argc a w0)) = cwd w0"
proof (cases "argc = 1")
  case True
  then show ?thesis by (simp add: main_def)
next
  case False
  have body: "cwd (world_of
      (if arg_docs a then Exited w
       else (case resolve_command (config w) a of
               Inl err \<Rightarrow> Uncaught err w
             | Inr cmd \<Rightarrow>
                 and_then
                   (if arg_register a
                    then register_command e (arg_name a) cmd (paths_argument a) w
                    else dispatch e (arg_name a) w)
                   (\<lambda>w1. and_then (config_command e a w1)
                           (\<lambda>w2. Returned (chdir CURRENT_PATH w2)))))) = cwd w" for w
  proof (cases "arg_docs a")
    case True
    then show ?thesis by simp
  next
    case nd: False
    show ?thesis
    proof (cases "resolve_command (config w) a")
      case (Inl err)
      then show ?thesis using nd by simp
    next
      case (Inr cmd)
      have "cwd (world_of (if arg_register a
                    then register_command e (arg_name a) cmd (paths_argument a) w
                    else dispatch e (arg_name a) w)) = cwd w"
        by (simp add: cwd_register_command cwd_dispatch)
      then show ?thesis using nd Inr by (simp add: cwd_tail)
    qed
  qed
  show ?thesis
    unfolding main_def using False
    by (simp only: if_False, intro cwd_and_then cwd_load_config body)
qed

section \<open>Looking up a name that is not registered\<close>

text \<open>
  C1, as the claim states it, fails. Invoking \<open>deploy\<close> on a host whose registry holds
  only \<open>build\<close> ends the run with an exception that nothing catches: the process
  dies with the traceback of \<open>KeyError('deploy')\<close>.
\<close>

theorem invoking_unknown_name_crashes:
  "raised (main posix_host 2 (no_arguments\<lparr>arg_name := Some ''deploy''\<rparr>)
            (fresh store_files ''/home/u''))
   = Some (KeyError (Some ''deploy''))"
  by code_simp

text \<open>
  C1, amended. A name that has no section in the registry and is not \<open>DEFAULT\<close> makes
  \<open>config[name]\<close> raise \<open>KeyError\<close> with that name, both when line 107 resolves the
  shorthand \<open>.\<close> (registering or invoking) and when line 131 invokes the name. The
  exception is not caught: the run ends there as an uncaught \<open>KeyError\<close> carrying the
  name, in the world the load left. Nothing was launched. The files are the ones the
  run began with when it found a store; when it found none, lines 88 to 90 have
  created the store, with the text of the registry in memory, before the lookup, and
  that is the one file written.
\<close>

theorem unknown_name_raises_KeyError:
  assumes "argc \<noteq> 1" and "load_config e w0 = Returned w" and "\<not> arg_docs a"
    and "arg_name a = Some n" and "n \<noteq> default_section" and "\<not> has_section (config w) n"
    and "command_argument a = ''.'' \<or> (\<not> arg_register a \<and> n \<noteq> [])"
  shows "main e argc a w0 = Uncaught (KeyError (Some n)) w
         \<and> launched w = launched w0
         \<and> files w = (if exists e w0 (CONFIG_FILE_PATH e) then files w0
                       else (files w0)(file_named e w0 (CONFIG_FILE_PATH e)
                              \<mapsto> config_write (config w0)))"
proof -
  have look: "config_lookup (config w) (Some n) key = Inl (KeyError (Some n))" for key
    using assms(5,6) by (simp add: config_lookup_def getitem_def)
  have "main e argc a w0 = Uncaught (KeyError (Some n)) w"
  proof (cases "command_argument a = ''.''")
    case True
    then show ?thesis
      using assms(1-4) by (simp add: main_def and_then_def resolve_command_def look)
  next
    case False
    with assms(7) have inv: "\<not> arg_register a" "n \<noteq> []" by simp_all
    have "dispatch e (Some n) w = Uncaught (KeyError (Some n)) w"
      using inv by (simp add: dispatch_def truthy_def look)
    then show ?thesis
      using assms(1-4) False inv by (simp add: main_def and_then_def resolve_command_def)
  qed
  then show ?thesis
    using load_config_returned(1,4)[OF assms(2)] by simp
qed

text \<open>
  The witness is a first run, on a host that has no store yet: \<open>ahd register deploy .\<close>
  ends with the \<open>KeyError\<close>, and the one file there is then is the empty store that the
  load created.
\<close>

theorem unknown_name_raises_KeyError_witness:
  "main posix_host 4
     (no_arguments\<lparr>arg_register := True, arg_name := Some ''deploy'', arg_command := Some ''.''\<rparr>)
     (fresh Map.empty ''/home/u'')
   = Uncaught (KeyError (Some ''deploy''))
       ((fresh Map.empty ''/home/u'')\<lparr>files := [''/opt/ahd/.ahdconfig'' \<mapsto> []]\<rparr>)
   \<and> launched ((fresh Map.empty ''/home/u'')\<lparr>files := [''/opt/ahd/.ahdconfig'' \<mapsto> []]\<rparr>) = []
   \<and> files ((fresh Map.empty ''/home/u'')\<lparr>files := [''/opt/ahd/.ahdconfig'' \<mapsto> []]\<rparr>)
     = [''/opt/ahd/.ahdconfig'' \<mapsto> []]"
proof -
  let ?a = "no_arguments\<lparr>arg_register := True, arg_name := Some ''deploy'',
              arg_command := Some ''.''\<rparr>"
  let ?s = "fresh Map.empty ''/home/u''"
  let ?w = "(fresh Map.empty ''/home/u'')\<lparr>files := [''/opt/ahd/.ahdconfig'' \<mapsto> []]\<rparr>"
  have l: "load_config posix_host ?s = Returned ?w"
    by (simp add: load_config_def posix_host_def fresh_def CONFIG_FILE_PATH_def sep_def
        exists_def file_named_def example_realpath_def startswith_def open_write_def
        config_write_def empty_config_def)
  have h: "\<not> has_section (config ?w) ''deploy''"
    by (simp add: has_section_def fresh_def empty_config_def)
  have "main posix_host 4 ?a ?s = Uncaught (KeyError (Some ''deploy'')) ?w
        \<and> launched ?w = launched ?s
        \<and> files ?w = (if exists posix_host ?s (CONFIG_FILE_PATH posix_host) then files ?s
                       else (files ?s)(file_named posix_host ?s (CONFIG_FILE_PATH posix_host)
                              \<mapsto> config_write (config ?s)))"
    by (rule unknown_name_raises_KeyError[OF _ l _ _ _ h])
      (simp_all add: no_arguments_def command_argument_def default_section_def)
  then show ?thesis
    by (simp add: fresh_def)
qed

section \<open>Invoking a registered name\<close>

lemma run_in_each_launches:
  assumes "config_lookup (config w) name ''command'' = Inr cmd"
  shows "run_in_each name ds w
         = Returned (w\<lparr>launched := launched w
              @ map (\<lambda>d. replace (CHR 0x27) [] (''cd '' @ strip d @ '' && '' @ cmd @ '' '')) ds\<rparr>)"
  using assms
proof (induction ds arbitrary: w)
  case Nil
  then show ?case by simp
next
  case (Cons d ds)
  have "config_lookup (config (Popen s w)) name ''command'' = Inr cmd" for s
    using Cons.prems by (simp add: Popen_def)
  from Cons.IH[OF this] Cons.prems show ?case
    by (simp add: Popen_def)
qed

lemma run_in_each_raises:
  assumes "config_lookup (config w) name ''command'' = Inl err" and "ds \<noteq> []"
  shows "run_in_each name ds w = Uncaught err w"
  using assms by (cases ds) simp_all

text \<open>
  Lines 130 to 141 for a name that is not empty, case by case: the lookup of the
  paths raises; the lookup of the command raises, in the loop before the first launch
  or at line 141; or both succeed and the launches are made, one for every element of
  a bracketed list, one in all otherwise.
\<close>

lemma dispatch_invokes:
  assumes "n \<noteq> []"
  shows "dispatch e (Some n) w
         = (case config_lookup (config w) (Some n) ''paths'' of
              Inl err \<Rightarrow> Uncaught err w
            | Inr paths \<Rightarrow>
                (case config_lookup (config w) (Some n) ''command'' of
                   Inl err \<Rightarrow> Uncaught err w
                 | Inr cmd \<Rightarrow>
                     Returned (w\<lparr>launched := launched w
                       @ (if startswith paths ''[''
                          then map (\<lambda>d. replace (CHR 0x27) []
                                          (''cd '' @ strip d @ '' && '' @ cmd @ '' ''))
                                 (path_list e paths)
                          else [replace (CHR 0x27) []
                                  (''cd '' @ paths @ '' && '' @ cmd @ '' '')])\<rparr>)))"
proof (cases "config_lookup (config w) (Some n) ''paths''")
  case (Inl err)
  then show ?thesis
    using assms by (simp add: dispatch_def truthy_def)
next
  case p: (Inr paths)
  show ?thesis
  proof (cases "config_lookup (config w) (Some n) ''command''")
    case (Inl err)
    then show ?thesis
      using assms p
      by (simp add: dispatch_def truthy_def run_in_each_raises path_list_not_Nil)
  next
    case (Inr cmd)
    then show ?thesis
      using assms p
      by (simp add: dispatch_def truthy_def run_in_each_launches Popen_def)
  qed
qed

text \<open>The files of a host whose store holds \<open>echo_registry\<close>.\<close>

definition echo_files :: "string \<Rightarrow> string option" where
  "echo_files = [''/opt/ahd/.ahdconfig'' \<mapsto> config_write echo_registry]"

text \<open>
  C4, as the claim states it, fails. \<open>ahd register echo "echo %(foo)s" /a,/b\<close> on a
  first run stores \<open>echo_registry\<close>, an entry whose paths are a bracketed list of two
  directories. Invoking \<open>echo\<close> launches none of the two subprocesses: the lookup of
  the command at line 137 interpolates the stored text, finds no option \<open>foo\<close>, and
  the run ends with an uncaught \<open>InterpolationMissingOptionError\<close>.
\<close>

theorem stored_command_that_cannot_be_interpolated:
  "files (world_of (main posix_host 5
       (no_arguments\<lparr>arg_register := True, arg_name := Some ''echo'',
          arg_command := Some ''echo %(foo)s'', arg_paths := Some ''/a,/b''\<rparr>)
       (fresh Map.empty ''/home/u''))) ''/opt/ahd/.ahdconfig''
     = Some (config_write echo_registry)
   \<and> config_lookup echo_registry (Some ''echo'') ''paths'' = Inr ''['/a', '/b']''
   \<and> length (path_list posix_host ''['/a', '/b']'') = 2
   \<and> raised (main posix_host 2 (no_arguments\<lparr>arg_name := Some ''echo''\<rparr>)
               (fresh echo_files ''/home/u''))
     = Some InterpolationMissingOptionError
   \<and> launched (world_of (main posix_host 2 (no_arguments\<lparr>arg_name := Some ''echo''\<rparr>)
                            (fresh echo_files ''/home/u'')))
     = []"
proof (intro conjI)
  show "files (world_of (main posix_host 5
       (no_arguments\<lparr>arg_register := True, arg_name := Some ''echo'',
          arg_command := Some ''echo %(foo)s'', arg_paths := Some ''/a,/b''\<rparr>)
       (fresh Map.empty ''/home/u''))) ''/opt/ahd/.ahdconfig''
     = Some (config_write echo_registry)"
    by code_simp
  show "config_lookup echo_registry (Some ''echo'') ''paths'' = Inr ''['/a', '/b']''"
    by code_simp
  show "length (path_list posix_host ''['/a', '/b']'') = 2"
    by code_simp
  show "raised (main posix_host 2 (no_arguments\<lparr>arg_name := Some ''echo''\<rparr>)
               (fresh echo_files ''/home/u''))
     = Some InterpolationMissingOptionError"
    by code_simp
  show "launched (world_of (main posix_host 2 (no_arguments\<lparr>arg_name := Some ''echo''\<rparr>)
                            (fresh echo_files ''/home/u'')))
     = []"
    by code_simp
qed

text \<open>
  C4, amended. The run invokes a name whose paths, as the lookup of line 131 gives
  them (the stored text after interpolation), start with a bracket; \<open>path_list\<close> splits
  them into \<open>N\<close> elements. When the lookup of the command succeeds, the run launches
  exactly \<open>N\<close> subprocesses, one for every element and in that order; each shell string
  is \<open>cd\<close>, the trimmed element, \<open>&&\<close> and the command as the lookup gives it (the
  stored text after interpolation), with every single quote deleted from the whole
  string; nothing else changes and \<open>main\<close> returns. When the lookup of the command
  raises, the exception is not caught and nothing is launched. In both cases the
  process has waited for no child.
\<close>

theorem invoke_bracketed_list:
  assumes "argc \<noteq> 1" and "load_config e w0 = Returned w" and "\<not> arg_docs a"
    and "\<not> arg_register a" and "\<not> arg_config a"
    and "arg_name a = Some n" and "n \<noteq> []"
    and "config_lookup (config w) (Some n) ''paths'' = Inr paths" and "startswith paths ''[''"
  shows "main e argc a w0
         = (case config_lookup (config w) (Some n) ''command'' of
              Inl err \<Rightarrow> Uncaught err w
            | Inr cmd \<Rightarrow>
                Returned (w\<lparr>launched := launched w
                  @ map (\<lambda>d. replace (CHR 0x27) [] (''cd '' @ strip d @ '' && '' @ cmd @ '' ''))
                      (path_list e paths)\<rparr>))
         \<and> awaited (world_of (main e argc a w0)) = awaited w0"
proof -
  have m: "main e argc a w0
         = (case config_lookup (config w) (Some n) ''command'' of
              Inl err \<Rightarrow> Uncaught err w
            | Inr cmd \<Rightarrow>
                Returned (w\<lparr>launched := launched w
                  @ map (\<lambda>d. replace (CHR 0x27) [] (''cd '' @ strip d @ '' && '' @ cmd @ '' ''))
                      (path_list e paths)\<rparr>))"
    unfolding main_dispatch[OF assms(1-5)] assms(6) dispatch_invokes[OF assms(7)]
    using assms(6,8,9)
    by (simp add: resolve_command_def split: sum.splits)
  have "awaited (world_of (main e argc a w0)) = awaited w"
    unfolding m by (simp split: sum.splits)
  with m show ?thesis
    using load_config_returned(2)[OF assms(2)] by simp
qed

theorem invoke_bracketed_list_witness:
  "main posix_host 2 (no_arguments\<lparr>arg_name := Some ''build''\<rparr>) (fresh store_files ''/home/u'')
   = Returned ((fresh store_files ''/home/u'')
       \<lparr>config := build_registry, launched := [''cd /a && make all '', ''cd /b && make all '']\<rparr>)
   \<and> awaited (world_of (main posix_host 2 (no_arguments\<lparr>arg_name := Some ''build''\<rparr>)
                 (fresh store_files ''/home/u''))) = []"
proof -
  let ?a = "no_arguments\<lparr>arg_name := Some ''build''\<rparr>"
  let ?s = "fresh store_files ''/home/u''"
  let ?w = "(fresh store_files ''/home/u'')\<lparr>config := build_registry\<rparr>"
  have p: "config_lookup (config ?w) (Some ''build'') ''paths'' = Inr ''['/a', '/b']''"
    by code_simp
  have c: "config_lookup (config ?w) (Some ''build'') ''command'' = Inr ''make all''"
    by code_simp
  have b: "startswith ''['/a', '/b']'' ''[''"
    by code_simp
  have l: "map (\<lambda>d. replace (CHR 0x27) [] (''cd '' @ strip d @ '' && '' @ ''make all'' @ '' ''))
               (path_list posix_host ''['/a', '/b']'')
           = [''cd /a && make all '', ''cd /b && make all '']"
    by code_simp
  have "main posix_host 2 ?a ?s
         = (case config_lookup (config ?w) (Some ''build'') ''command'' of
              Inl err \<Rightarrow> Uncaught err ?w
            | Inr cmd \<Rightarrow>
                Returned (?w\<lparr>launched := launched ?w
                  @ map (\<lambda>d. replace (CHR 0x27) [] (''cd '' @ strip d @ '' && '' @ cmd @ '' ''))
                      (path_list posix_host ''['/a', '/b']'')\<rparr>))
         \<and> awaited (world_of (main posix_host 2 ?a ?s)) = awaited ?s"
    by (rule invoke_bracketed_list[OF _ load_store_files _ _ _ _ _ p b])
      (simp_all add: no_arguments_def)
  then show ?thesis
    unfolding c sum.case l by (simp add: fresh_def)
qed

text \<open>
  C8. A run that does not register and whose \<open><command>\<close> is not the shorthand \<open>.\<close> is
  the same, to the last launched string, as the run without \<open><command>\<close> and
  \<open><paths>\<close>. When it invokes a name, every launched string is built from
  \<open>config[name]['paths']\<close> and \<open>config[name]['command']\<close>, the values of the registry:
  the outcome below is a function of the registry and the name alone, whatever
  \<open><command>\<close> and \<open><paths>\<close> were given.
\<close>

theorem invoke_ignores_command_and_paths:
  assumes "\<not> arg_register a" and "arg_command a \<noteq> Some ''.''"
  shows "main e argc a w0 = main e argc (a\<lparr>arg_command := None, arg_paths := None\<rparr>) w0
         \<and> (argc \<noteq> 1 \<and> load_config e w0 = Returned w \<and> \<not> arg_docs a \<and> \<not> arg_config a
              \<and> arg_name a = Some n \<and> n \<noteq> [] \<longrightarrow>
            main e argc a w0
            = (case config_lookup (config w) (Some n) ''paths'' of
                 Inl err \<Rightarrow> Uncaught err w
               | Inr paths \<Rightarrow>
                   (case config_lookup (config w) (Some n) ''command'' of
                      Inl err \<Rightarrow> Uncaught err w
                    | Inr cmd \<Rightarrow>
                        Returned (w\<lparr>launched := launched w
                          @ (if startswith paths ''[''
                             then map (\<lambda>d. replace (CHR 0x27) []
                                             (''cd '' @ strip d @ '' && '' @ cmd @ '' ''))
                                    (path_list e paths)
                             else [replace (CHR 0x27) []
                                     (''cd '' @ paths @ '' && '' @ cmd @ '' '')])\<rparr>))))"
proof (intro conjI impI)
  have c: "command_argument a \<noteq> ''.''"
    using assms(2) by (cases "arg_command a") (simp_all add: command_argument_def)
  have k: "config_command e (a\<lparr>arg_command := None, arg_paths := None\<rparr>) = config_command e a"
    by (rule ext) (simp add: config_command_def)
  have c': "command_argument (a\<lparr>arg_command := None, arg_paths := None\<rparr>) = []"
    by (simp add: command_argument_def)
  show "main e argc a w0 = main e argc (a\<lparr>arg_command := None, arg_paths := None\<rparr>) w0"
  proof (cases "arg_docs a")
    case True
    then show ?thesis by (simp add: main_def)
  next
    case False
    then show ?thesis
      unfolding main_def resolve_command_def using assms(1) c by (simp add: c' k)
  qed
  assume h: "argc \<noteq> 1 \<and> load_config e w0 = Returned w \<and> \<not> arg_docs a \<and> \<not> arg_config a
              \<and> arg_name a = Some n \<and> n \<noteq> []"
  then have ne: "n \<noteq> []"
    by simp
  from h have "main e argc a w0
        = (case resolve_command (config w) a of
             Inl err \<Rightarrow> Uncaught err w
           | Inr cmd \<Rightarrow> dispatch e (arg_name a) w)"
    using assms(1) by (intro main_dispatch) simp_all
  also have "\<dots> = dispatch e (Some n) w"
    using c h by (simp add: resolve_command_def)
  finally show "main e argc a w0
            = (case config_lookup (config w) (Some n) ''paths'' of
                 Inl err \<Rightarrow> Uncaught err w
               | Inr paths \<Rightarrow>
                   (case config_lookup (config w) (Some n) ''command'' of
                      Inl err \<Rightarrow> Uncaught err w
                    | Inr cmd \<Rightarrow>
                        Returned (w\<lparr>launched := launched w
                          @ (if startswith paths ''[''
                             then map (\<lambda>d. replace (CHR 0x27) []
                                             (''cd '' @ strip d @ '' && '' @ cmd @ '' ''))
                                    (path_list e paths)
                             else [replace (CHR 0x27) []
                                     (''cd '' @ paths @ '' && '' @ cmd @ '' '')])\<rparr>)))"
    by (simp only: dispatch_invokes[OF ne])
qed

text \<open>
  The witness invokes \<open>build\<close> with \<open>rm -rf\<close> and \<open>/\<close> as \<open><command>\<close> and \<open><paths>\<close>: what is
  launched is \<open>make all\<close> in \<open>/a\<close> and in \<open>/b\<close>, as the registry has it.
\<close>

theorem invoke_ignores_command_and_paths_witness:
  "main posix_host 4
     (no_arguments\<lparr>arg_name := Some ''build'', arg_command := Some ''rm -rf'', arg_paths := Some ''/''\<rparr>)
     (fresh store_files ''/home/u'')
   = main posix_host 4 (no_arguments\<lparr>arg_name := Some ''build''\<rparr>) (fresh store_files ''/home/u'')
   \<and> main posix_host 4
     (no_arguments\<lparr>arg_name := Some ''build'', arg_command := Some ''rm -rf'', arg_paths := Some ''/''\<rparr>)
     (fresh store_files ''/home/u'')
   = Returned ((fresh store_files ''/home/u'')
       \<lparr>config := build_registry, launched := [''cd /a && make all '', ''cd /b && make all '']\<rparr>)"
proof -
  let ?a = "no_arguments\<lparr>arg_name := Some ''build'', arg_command := Some ''rm -rf'',
              arg_paths := Some ''/''\<rparr>"
  let ?s = "fresh store_files ''/home/u''"
  let ?w = "(fresh store_files ''/home/u'')\<lparr>config := build_registry\<rparr>"
  have p: "config_lookup (config ?w) (Some ''build'') ''paths'' = Inr ''['/a', '/b']''"
    by code_simp
  have c: "config_lookup (config ?w) (Some ''build'') ''command'' = Inr ''make all''"
    by code_simp
  have b: "startswith ''['/a', '/b']'' ''[''"
    by code_simp
  have l: "map (\<lambda>d. replace (CHR 0x27) [] (''cd '' @ strip d @ '' && '' @ ''make all'' @ '' ''))
               (path_list posix_host ''['/a', '/b']'')
           = [''cd /a && make all '', ''cd /b && make all '']"
    by code_simp
  have t: "main posix_host 4 ?a ?s
           = main posix_host 4 (?a\<lparr>arg_command := None, arg_paths := None\<rparr>) ?s
         \<and> (4 \<noteq> (1::nat) \<and> load_config posix_host ?s = Returned ?w \<and> \<not> arg_docs ?a
              \<and> \<not> arg_config ?a \<and> arg_name ?a = Some ''build'' \<and> ''build'' \<noteq> [] \<longrightarrow>
            main posix_host 4 ?a ?s
            = (case config_lookup (config ?w) (Some ''build'') ''paths'' of
                 Inl err \<Rightarrow> Uncaught err ?w
               | Inr paths \<Rightarrow>
                   (case config_lookup (config ?w) (Some ''build'') ''command'' of
                      Inl err \<Rightarrow> Uncaught err ?w
                    | Inr cmd \<Rightarrow>
                        Returned (?w\<lparr>launched := launched ?w
                          @ (if startswith paths ''[''
                             then map (\<lambda>d. replace (CHR 0x27) []
                                             (''cd '' @ strip d @ '' && '' @ cmd @ '' ''))
                                    (path_list posix_host paths)
                             else [replace (CHR 0x27) []
                                     (''cd '' @ paths @ '' && '' @ cmd @ '' '')])\<rparr>))))"
    by (rule invoke_ignores_command_and_paths) (simp_all add: no_arguments_def)
  have h: "4 \<noteq> (1::nat) \<and> load_config posix_host ?s = Returned ?w \<and> \<not> arg_docs ?a
              \<and> \<not> arg_config ?a \<and> arg_name ?a = Some ''build'' \<and> ''build'' \<noteq> []"
    by (simp add: load_store_files no_arguments_def)
  have e: "?a\<lparr>arg_command := None, arg_paths := None\<rparr> = no_arguments\<lparr>arg_name := Some ''build''\<rparr>"
    by (simp add: no_arguments_def)
  have "main posix_host 4 ?a ?s
        = Returned (?w\<lparr>launched := launched ?w @ [''cd /a && make all '', ''cd /b && make all '']\<rparr>)"
    using t[THEN conjunct2, THEN mp, OF h] unfolding p c sum.case by (simp only: b if_True l)
  moreover have "main posix_host 4 ?a ?s
        = main posix_host 4 (no_arguments\<lparr>arg_name := Some ''build''\<rparr>) ?s"
    using t[THEN conjunct1] by (simp only: e)
  ultimately show ?thesis
    by (simp add: fresh_def)
qed

section \<open>Invoking a name that was registered without paths\<close>

text \<open>The files of a host whose store holds \<open>lint_registry\<close>.\<close>

definition lint_files :: "string \<Rightarrow> string option" where
  "lint_files = [''/opt/ahd/.ahdconfig'' \<mapsto> config_write lint_registry]"

text \<open>
  When the paths of the invoked name are the empty string, line 141 launches one
  subprocess, and its shell string is \<open>cd\<close> with no operand, \<open>&&\<close> and the command
  without its single quotes. The empty path is not looked at: it is spliced into the
  string like any other, and what \<open>cd\<close> with no operand does is up to the shell.
\<close>

theorem invoke_empty_paths:
  assumes "argc \<noteq> 1" and "load_config e w0 = Returned w" and "\<not> arg_docs a"
    and "\<not> arg_register a" and "\<not> arg_config a"
    and "arg_name a = Some n" and "n \<noteq> []"
    and "config_lookup (config w) (Some n) ''paths'' = Inr []"
    and "config_lookup (config w) (Some n) ''command'' = Inr cmd"
  shows "main e argc a w0
         = Returned (w\<lparr>launched := launched w
              @ [''cd  && '' @ replace (CHR 0x27) [] cmd @ '' '']\<rparr>)"
proof -
  have "replace (CHR 0x27) [] (''cd '' @ [] @ '' && '' @ cmd @ '' '')
        = ''cd  && '' @ replace (CHR 0x27) [] cmd @ '' ''"
    by (simp add: replace_def)
  then show ?thesis
    unfolding main_dispatch[OF assms(1-5)] assms(6) dispatch_invokes[OF assms(7)]
    using assms(6,8,9)
    by (simp add: resolve_command_def startswith_def split: sum.splits)
qed

theorem invoke_empty_paths_witness:
  "main posix_host 2 (no_arguments\<lparr>arg_name := Some ''lint''\<rparr>) (fresh lint_files ''/home/u'')
   = Returned ((fresh lint_files ''/home/u'')
       \<lparr>config := lint_registry, launched := [''cd  && eslint . '']\<rparr>)"
proof -
  let ?a = "no_arguments\<lparr>arg_name := Some ''lint''\<rparr>"
  let ?s = "fresh lint_files ''/home/u''"
  let ?w = "(fresh lint_files ''/home/u'')\<lparr>config := lint_registry\<rparr>"
  have t: "example_read_text (config_write lint_registry) empty_config = Inr lint_registry"
    by code_simp
  have l: "load_config posix_host ?s = Returned ?w"
    by (simp add: load_config_def posix_host_def fresh_def lint_files_def CONFIG_FILE_PATH_def
        sep_def open_read_def exists_def file_named_def example_realpath_def startswith_def t)
  have p: "config_lookup (config ?w) (Some ''lint'') ''paths'' = Inr []"
    by code_simp
  have c: "config_lookup (config ?w) (Some ''lint'') ''command'' = Inr ''eslint .''"
    by code_simp
  have r: "''cd  && '' @ replace (CHR 0x27) [] ''eslint .'' @ '' '' = ''cd  && eslint . ''"
    by code_simp
  have "main posix_host 2 ?a ?s
        = Returned (?w\<lparr>launched := launched ?w
              @ [''cd  && '' @ replace (CHR 0x27) [] ''eslint .'' @ '' '']\<rparr>)"
    by (rule invoke_empty_paths[OF _ l _ _ _ _ _ p c]) (simp_all add: no_arguments_def)
  then show ?thesis
    unfolding r by (simp add: fresh_def)
qed

section \<open>What a run writes\<close>

lemma file_and_then:
  assumes "files (world_of r) p = x" and "\<And>w'. files (world_of (k w')) p = files w' p"
  shows "files (world_of (and_then r k)) p = x"
  using assms by (cases r) (simp_all add: and_then_def)

lemma files_run_in_each: "files (world_of (run_in_each name ds w)) = files w"
  by (induction ds arbitrary: w) (simp_all add: Popen_def split: sum.splits)

lemma files_dispatch: "files (world_of (dispatch e name w)) = files w"
  by (simp add: dispatch_def files_run_in_each Popen_def split: sum.splits)

lemma config_run_in_each: "config (world_of (run_in_each name ds w)) = config w"
  by (induction ds arbitrary: w) (simp_all add: Popen_def split: sum.splits)

lemma config_dispatch: "config (world_of (dispatch e name w)) = config w"
  by (simp add: dispatch_def config_run_in_each Popen_def split: sum.splits)

lemma files_chdir: "files (chdir path w) = files w"
  by (simp add: chdir_def)

text \<open>
  Lines 148 to 150 alone, the import: it opens and reads files and changes the
  registry in memory; it writes no file.
\<close>

lemma files_import:
  "files (world_of
      (case arg_import a of
         None \<Rightarrow> Returned w
       | Some path \<Rightarrow>
           if path = [] then Returned w
           else (case open_read e w path of
                   Inl err \<Rightarrow> Uncaught err w
                 | Inr config_file \<Rightarrow>
                     (case read_names e w (lines_of config_file) (config w) of
                        Inl err \<Rightarrow> Uncaught err w
                      | Inr cp \<Rightarrow> Returned (w\<lparr>config := cp\<rparr>))))) = files w"
  by (simp split: option.splits sum.splits)

text \<open>
  Lines 143 to 150: the one file they can write is the export file, and what they
  write there is the text of the registry as it is before the import.
\<close>

lemma files_config_command:
  "files (world_of (config_command e a w)) p = files w p
   \<or> (arg_config a \<and> arg_export a \<and> file_named e w (curdir @ sep e @ ''.ahdconfig'') = p
      \<and> files (world_of (config_command e a w)) p = Some (config_write (config w)))"
proof (cases "arg_config a \<and> arg_export a \<and> writable e (curdir @ sep e @ ''.ahdconfig'')")
  case True
  let ?w1 = "w\<lparr>files := (files w)(file_named e w (curdir @ sep e @ ''.ahdconfig'')
                          \<mapsto> config_write (config w))\<rparr>"
  have "files (world_of (config_command e a w)) = files ?w1"
    using True
    by (simp only: config_command_def open_write_def if_True and_then_simps files_import)
  then show ?thesis
    using True by simp
next
  case False
  have "files (world_of (config_command e a w)) = files w"
  proof (cases "arg_config a")
    case c: True
    show ?thesis
    proof (cases "arg_export a")
      case True
      with c False have "\<not> writable e (curdir @ sep e @ ''.ahdconfig'')" by simp
      with c True show ?thesis
        by (simp add: config_command_def open_write_def and_then_simps)
    next
      case e: False
      with c show ?thesis
        by (simp only: config_command_def if_True if_False and_then_simps files_import)
    qed
  next
    case False
    then show ?thesis by (simp add: config_command_def)
  qed
  then show ?thesis by simp
qed

lemma files_load_config_existing:
  assumes "exists e w (CONFIG_FILE_PATH e)"
  shows "files (world_of (load_config e w)) = files w"
  using assms by (simp add: load_config_def split: sum.splits)

text \<open>
  The store of \<open>build_registry\<close> with a comment on top, and the exported store of
  somebody else in \<open>/home/u/shared.ini\<close>.
\<close>

definition deploy_registry :: ConfigParser where
  "deploy_registry =
     \<lparr>defaults = [],
      sections = [(''deploy'', [(''command'', ''./deploy.sh''), (''paths'', ''['/srv']'')])]\<rparr>"

definition commented_files :: "string \<Rightarrow> string option" where
  "commented_files =
     [''/opt/ahd/.ahdconfig'' \<mapsto> commented_store,
      ''/home/u/shared.ini'' \<mapsto> config_write deploy_registry]"

text \<open>
  C9, as the claim states it, fails. \<open>ahd config -e -i /home/u/shared.ini\<close> does not
  register, and it is run in \<open>/opt/ahd\<close>, the directory of \<open>cli.py\<close>, where the export
  file \<open>./.ahdconfig\<close> is the store. The store began with a comment line; after the
  run it holds the text that \<open>config.write\<close> makes of the registry, without the
  comment: its bytes have changed.
\<close>

theorem export_in_install_directory_rewrites_store:
  "commented_files ''/opt/ahd/.ahdconfig'' = Some commented_store
   \<and> files (world_of (main posix_host 5
        (no_arguments\<lparr>arg_config := True, arg_export := True,
           arg_import := Some ''/home/u/shared.ini''\<rparr>)
        (fresh commented_files ''/opt/ahd''))) ''/opt/ahd/.ahdconfig''
     = Some (config_write build_registry)
   \<and> config_write build_registry \<noteq> commented_store"
proof (intro conjI)
  show "commented_files ''/opt/ahd/.ahdconfig'' = Some commented_store"
    by (simp add: commented_files_def)
  show "files (world_of (main posix_host 5
        (no_arguments\<lparr>arg_config := True, arg_export := True,
           arg_import := Some ''/home/u/shared.ini''\<rparr>)
        (fresh commented_files ''/opt/ahd''))) ''/opt/ahd/.ahdconfig''
     = Some (config_write build_registry)"
    by code_simp
  show "config_write build_registry \<noteq> commented_store"
    by code_simp
qed

text \<open>
  C9, amended. After a run that does not register, on a host where the store exists,
  the store holds the text it had; or else the run is \<open>ahd config\<close> with \<open>--export\<close>,
  the export file \<open>./.ahdconfig\<close> is the store (the process runs in the directory of
  \<open>cli.py\<close>), and the store holds the text of the registry as the load left it. The
  export of lines 144 to 147 is the only write; it comes before the import of lines
  148 to 150, which changes the registry in memory and no file. So nothing imported
  ever reaches the store, and without \<open>--export\<close>, or when the export file is another
  file, the store is unchanged, however the run ends.
\<close>

theorem store_after_run_without_register:
  assumes "\<not> arg_register a"
    and "files w0 (file_named e w0 (CONFIG_FILE_PATH e)) = Some txt"
  shows "files (world_of (main e argc a w0)) (file_named e w0 (CONFIG_FILE_PATH e)) = Some txt
         \<or> (arg_config a \<and> arg_export a
            \<and> file_named e w0 (curdir @ sep e @ ''.ahdconfig'') = file_named e w0 (CONFIG_FILE_PATH e)
            \<and> (\<exists>w. load_config e w0 = Returned w
                  \<and> files (world_of (main e argc a w0)) (file_named e w0 (CONFIG_FILE_PATH e))
                    = Some (config_write (config w))))"
proof (cases "argc = 1")
  case True
  then show ?thesis using assms(2) by (simp add: main_def)
next
  case argc: False
  let ?K = "file_named e w0 (CONFIG_FILE_PATH e)"
  have ex: "exists e w0 (CONFIG_FILE_PATH e)"
    using assms(2) by (simp add: exists_def)
  show ?thesis
  proof (cases "load_config e w0")
    case (Exited w)
    then show ?thesis
      using ex by (simp add: load_config_def open_write_def split: sum.splits)
  next
    case (Uncaught err w)
    then have "main e argc a w0 = Uncaught err w"
      using argc by (simp add: main_def and_then_simps)
    moreover have "files w = files w0"
      using files_load_config_existing[OF ex] Uncaught by simp
    ultimately show ?thesis using assms(2) by simp
  next
    case l: (Returned w)
    have fw: "files w = files w0"
      using files_load_config_existing[OF ex] l by simp
    have cw: "cwd w = cwd w0"
      using load_config_returned(3)[OF l] .
    show ?thesis
    proof (cases "arg_docs a")
      case True
      then have "main e argc a w0 = Exited w"
        using argc l by (simp add: main_def and_then_simps)
      then show ?thesis using fw assms(2) by simp
    next
      case docs: False
      show ?thesis
      proof (cases "resolve_command (config w) a")
        case (Inl err)
        then have "main e argc a w0 = Uncaught err w"
          using argc l docs by (simp add: main_def and_then_simps)
        then show ?thesis using fw assms(2) by simp
      next
        case (Inr cmd)
        then have m: "main e argc a w0
              = and_then (dispatch e (arg_name a) w)
                  (\<lambda>w1. and_then (config_command e a w1)
                          (\<lambda>w2. Returned (chdir CURRENT_PATH w2)))"
          using argc l docs assms(1) by (simp add: main_def and_then_simps)
        have fd: "files (world_of (dispatch e (arg_name a) w)) = files w0"
          using fw by (simp add: files_dispatch)
        show ?thesis
        proof (cases "dispatch e (arg_name a) w")
          case (Exited w1)
          then show ?thesis using m fd assms(2) by (simp add: and_then_simps)
        next
          case (Uncaught err w1)
          then show ?thesis using m fd assms(2) by (simp add: and_then_simps)
        next
          case d: (Returned w1)
          have f1: "files w1 = files w0"
            using fd d by simp
          have c1: "config w1 = config w"
            using config_dispatch[of e "arg_name a" w] d by simp
          have k1: "file_named e w1 p = file_named e w0 p" for p
            using cwd_dispatch[of e "arg_name a" w] d cw by (simp add: file_named_def)
          have "files (world_of (main e argc a w0)) = files (world_of (config_command e a w1))"
            unfolding m d and_then_simps
            by (cases "config_command e a w1") (simp_all add: and_then_simps files_chdir)
          then show ?thesis
            using files_config_command[of e a w1 ?K] f1 c1 k1 assms(2) l by auto
        qed
      qed
    qed
  qed
qed

text \<open>
  The witness imports \<open>/home/u/shared.ini\<close>, the exported store of somebody else, on
  the host whose store holds \<open>build\<close>.
\<close>

theorem store_after_run_without_register_witness:
  "files (world_of (main posix_host 4
       (no_arguments\<lparr>arg_config := True, arg_import := Some ''/home/u/shared.ini''\<rparr>)
       (fresh (store_files(''/home/u/shared.ini'' \<mapsto> config_write deploy_registry)) ''/home/u'')))
     ''/opt/ahd/.ahdconfig''
   = Some (config_write build_registry)"
  using store_after_run_without_register
    [of "no_arguments\<lparr>arg_config := True, arg_import := Some ''/home/u/shared.ini''\<rparr>"
        "fresh (store_files(''/home/u/shared.ini'' \<mapsto> config_write deploy_registry)) ''/home/u''"
        posix_host "config_write build_registry" 4]
  by (simp add: no_arguments_def fresh_def store_files_def posix_host_def CONFIG_FILE_PATH_def
      sep_def file_named_def example_realpath_def startswith_def)

section \<open>A registration whose completion script cannot be written\<close>

lemma main_register:
  assumes "argc \<noteq> 1" and "load_config e w0 = Returned w" and "\<not> arg_docs a"
    and "arg_register a" and "resolve_command (config w) a = Inr cmd"
  shows "main e argc a w0
         = and_then (register_command e (arg_name a) cmd (paths_argument a) w)
             (\<lambda>w1. and_then (config_command e a w1) (\<lambda>w2. Returned (chdir CURRENT_PATH w2)))"
  using assms by (simp add: main_def and_then_def)

text \<open>
  C5, as the claim states it, fails. On \<open>locked_host\<close>, where the completion script
  cannot be written, registering \<open>build\<close> ends with the uncaught \<open>OSError\<close> of line 121,
  and the store file, created empty when the run began, is still empty: the entry
  was not persisted.
\<close>

theorem locked_completion_loses_entry:
  "raised (main locked_host 5
       (no_arguments\<lparr>arg_register := True, arg_name := Some ''build'',
          arg_command := Some ''make all'', arg_paths := Some ''/a,/b''\<rparr>)
       (fresh Map.empty ''/home/u''))
     = Some (OSError ''/etc/bash_completion.d/ahd.sh'')
   \<and> files (world_of (main locked_host 5
       (no_arguments\<lparr>arg_register := True, arg_name := Some ''build'',
          arg_command := Some ''make all'', arg_paths := Some ''/a,/b''\<rparr>)
       (fresh Map.empty ''/home/u''))) ''/opt/ahd/.ahdconfig''
     = Some []"
  by code_simp

text \<open>
  C5, amended. When a registration on a host that is not Windows cannot write the
  completion script, the \<open>OSError\<close> of line 121 is not caught: the run ends with it
  before line 126 writes the store. The entry is in the registry of the dying
  process only; every file, the store among them, is as the load left it.
\<close>

theorem completion_failure_aborts_registration:
  assumes "argc \<noteq> 1" and "load_config e w0 = Returned w" and "\<not> arg_docs a"
    and "arg_register a" and "resolve_command (config w) a = Inr cmd"
    and "setitem (config w) (arg_name a) [(''command'', Str cmd), (''paths'', paths_argument a)]
         = Inr cp"
    and "\<not> nt e" and "\<not> writable e ''/etc/bash_completion.d/ahd.sh''"
  shows "raised (main e argc a w0) = Some (OSError ''/etc/bash_completion.d/ahd.sh'')
         \<and> config (world_of (main e argc a w0)) = cp
         \<and> files (world_of (main e argc a w0)) = files w"
proof -
  have "register_command e (arg_name a) cmd (paths_argument a) w
        = Uncaught (OSError ''/etc/bash_completion.d/ahd.sh'')
            (w\<lparr>config := cp,
               commands := commands w
                 @ map (\<lambda>custom_command. command custom_command []) (tl (iter cp))\<rparr>)"
    using assms(6-8) by (simp add: register_command_def open_write_def and_then_def Let_def)
  then show ?thesis
    using main_register[OF assms(1-5)] by (simp add: and_then_def)
qed

theorem completion_failure_aborts_registration_witness:
  "raised (main locked_host 5
       (no_arguments\<lparr>arg_register := True, arg_name := Some ''deploy'',
          arg_command := Some ''./deploy.sh'', arg_paths := Some ''/srv''\<rparr>)
       (fresh store_files ''/home/u''))
     = Some (OSError ''/etc/bash_completion.d/ahd.sh'')
   \<and> files (world_of (main locked_host 5
       (no_arguments\<lparr>arg_register := True, arg_name := Some ''deploy'',
          arg_command := Some ''./deploy.sh'', arg_paths := Some ''/srv''\<rparr>)
       (fresh store_files ''/home/u''))) ''/opt/ahd/.ahdconfig''
     = Some (config_write build_registry)"
proof -
  let ?a = "no_arguments\<lparr>arg_register := True, arg_name := Some ''deploy'',
          arg_command := Some ''./deploy.sh'', arg_paths := Some ''/srv''\<rparr>"
  let ?w = "(fresh store_files ''/home/u'')\<lparr>config := build_registry\<rparr>"
  let ?cp = "\<lparr>defaults = [],
      sections = [(''build'', [(''command'', ''make all''), (''paths'', ''['/a', '/b']'')]),
                  (''deploy'', [(''command'', ''./deploy.sh''), (''paths'', ''['/srv']'')])]\<rparr>"
  have l: "load_config locked_host (fresh store_files ''/home/u'') = Returned ?w"
    by (simp add: load_config_def locked_host_def fresh_def store_files_def CONFIG_FILE_PATH_def
        sep_def open_read_def exists_def file_named_def example_realpath_def startswith_def
        example_read_text_def)
  have r: "resolve_command (config ?w) ?a = Inr ''./deploy.sh''"
    by code_simp
  have s: "setitem (config ?w) (arg_name ?a)
             [(''command'', Str ''./deploy.sh''), (''paths'', paths_argument ?a)] = Inr ?cp"
    by code_simp
  have "raised (main locked_host 5 ?a (fresh store_files ''/home/u''))
          = Some (OSError ''/etc/bash_completion.d/ahd.sh'')
        \<and> config (world_of (main locked_host 5 ?a (fresh store_files ''/home/u''))) = ?cp
        \<and> files (world_of (main locked_host 5 ?a (fresh store_files ''/home/u''))) = files ?w"
    by (rule completion_failure_aborts_registration[OF _ l _ _ r s])
      (simp_all add: no_arguments_def locked_host_def)
  then show ?thesis
    by (simp add: fresh_def store_files_def)
qed

section \<open>Export, then import\<close>

text \<open>
  C6 at its failing input. The first run, in \<open>/home/u\<close>, exports the store that holds
  \<open>build\<close>, which writes \<open>./.ahdconfig\<close>, the file \<open>/home/u/.ahdconfig\<close>. The second run
  is in \<open>/home/u\<close> on an installation that has no store yet, and imports that file: it
  returns normally, and the registry in memory is empty. Line 150 hands the open file
  to \<open>config.read\<close>, which takes each of its four lines for the name of a file to open
  and finds none; the text of the file is never parsed. On the same text
  \<open>example_read_text\<close> gives \<open>build_registry\<close>, which is what the claim expects in
  memory.
\<close>

theorem import_of_exported_store_reads_nothing:
  "files (world_of (main posix_host 3 (no_arguments\<lparr>arg_config := True, arg_export := True\<rparr>)
             (fresh store_files ''/home/u''))) ''/home/u/.ahdconfig''
     = Some (config_write build_registry)
   \<and> main posix_host 4
       (no_arguments\<lparr>arg_config := True, arg_import := Some ''./.ahdconfig''\<rparr>)
       (fresh [''/home/u/.ahdconfig'' \<mapsto> config_write build_registry] ''/home/u'')
     = Returned ((fresh [''/home/u/.ahdconfig'' \<mapsto> config_write build_registry,
                         ''/opt/ahd/.ahdconfig'' \<mapsto> []] ''/home/u'')\<lparr>config := empty_config\<rparr>)
   \<and> lines_of (config_write build_registry)
     = [''[build]'' @ [CHR 0x0A], ''command = make all'' @ [CHR 0x0A],
        ''paths = ['/a', '/b']'' @ [CHR 0x0A], [CHR 0x0A]]
   \<and> example_read_text (config_write build_registry) empty_config = Inr build_registry"
proof (intro conjI)
  show "files (world_of (main posix_host 3 (no_arguments\<lparr>arg_config := True, arg_export := True\<rparr>)
             (fresh store_files ''/home/u''))) ''/home/u/.ahdconfig''
     = Some (config_write build_registry)"
    by code_simp
  show "lines_of (config_write build_registry)
     = [''[build]'' @ [CHR 0x0A], ''command = make all'' @ [CHR 0x0A],
        ''paths = ['/a', '/b']'' @ [CHR 0x0A], [CHR 0x0A]]"
    by code_simp
  show "example_read_text (config_write build_registry) empty_config = Inr build_registry"
    by (simp add: example_read_text_def)
  show "main posix_host 4
       (no_arguments\<lparr>arg_config := True, arg_import := Some ''./.ahdconfig''\<rparr>)
       (fresh [''/home/u/.ahdconfig'' \<mapsto> config_write build_registry] ''/home/u'')
     = Returned ((fresh [''/home/u/.ahdconfig'' \<mapsto> config_write build_registry,
                         ''/opt/ahd/.ahdconfig'' \<mapsto> []] ''/home/u'')\<lparr>config := empty_config\<rparr>)"
    by (simp add: main_def load_config_def and_then_def open_write_def open_read_def
        exists_def file_named_def example_realpath_def startswith_def
        resolve_command_def command_argument_def dispatch_def truthy_def config_command_def
        chdir_def CURRENT_PATH_def curdir_def posix_host_def no_arguments_def fresh_def
        CONFIG_FILE_PATH_def sep_def config_write_def write_section_def build_registry_def
        empty_config_def replace_def)
qed

section \<open>Values without a percent sign in the registry\<close>

text \<open>
  \<open>BasicInterpolation\<close> only acts on \<open>%\<close>: a value without one passes \<open>before_set\<close>
  and comes back from \<open>before_get\<close> as it was stored.
\<close>

lemma drop_escaped_percent_plain:
  "CHR ''%'' \<notin> set v \<Longrightarrow> drop_escaped_percent v = v"
  by (induction v rule: drop_escaped_percent.induct) auto

lemma KEYCRE_match_plain: "c \<noteq> CHR ''%'' \<Longrightarrow> KEYCRE_match (c # r) = None"
  by (simp add: KEYCRE_match_def split: list.splits)

lemma KEYCRE_sub_plain: "CHR ''%'' \<notin> set v \<Longrightarrow> KEYCRE_sub v = v"
proof (induction v)
  case Nil
  show ?case by simp
next
  case (Cons c r)
  then have "c \<noteq> CHR ''%''" and "KEYCRE_sub r = r" by auto
  then show ?case by (simp add: KEYCRE_match_plain)
qed

lemma before_set_plain: "CHR ''%'' \<notin> set v \<Longrightarrow> before_set v = Inr v"
  by (simp add: before_set_def drop_escaped_percent_plain KEYCRE_sub_plain)

lemma before_get_plain:
  assumes "CHR ''%'' \<notin> set v"
  shows "before_get m v = Inr v"
proof -
  have d: "dropWhile (\<lambda>c. c \<noteq> CHR ''%'') v = []"
    using assms by auto
  show ?thesis
    unfolding before_get_def
    by (subst interpolate_some.simps) (simp add: d del: dropWhile_eq_Nil_conv)
qed

lemma optionxform_command: "optionxform ''command'' = ''command''"
  by code_simp

lemma optionxform_paths: "optionxform ''paths'' = ''paths''"
  by code_simp

lemma set_option_section:
  assumes "section \<noteq> []" and "section \<noteq> default_section"
    and "map_of (sections cp) section = Some d" and "CHR ''%'' \<notin> set v"
  shows "set_option cp section opt v
         = Inr (cp\<lparr>sections :=
                  AList.update section (AList.update (optionxform opt) v d) (sections cp)\<rparr>)"
  using assms by (simp add: set_option_def before_set_plain)

text \<open>
  \<open>config[n] = {"command": cmd, "paths": paths}\<close> for a name that is neither empty nor
  \<open>DEFAULT\<close>: the section \<open>n\<close> holds the two values and nothing else, whether it
  existed before or not, and the defaults are untouched.
\<close>

lemma setitem_entry:
  assumes "n \<noteq> []" and "n \<noteq> default_section"
    and "CHR ''%'' \<notin> set cmd" and "CHR ''%'' \<notin> set (str_of paths)"
  shows "\<exists>cp'. setitem cp (Some n) [(''command'', Str cmd), (''paths'', paths)] = Inr cp'
           \<and> map_of (sections cp') n = Some [(''command'', cmd), (''paths'', str_of paths)]
           \<and> defaults cp' = defaults cp"
proof -
  define cp1 where
    "cp1 = (if has_section cp n then cp\<lparr>sections := AList.update n [] (sections cp)\<rparr> else cp)"
  define cp2 where
    "cp2 = (if has_section cp1 n then cp1 else cp1\<lparr>sections := sections cp1 @ [(n, [])]\<rparr>)"
  define cp3 where
    "cp3 = cp2\<lparr>sections := AList.update n [(''command'', cmd)] (sections cp2)\<rparr>"
  define cp4 where
    "cp4 = cp3\<lparr>sections :=
             AList.update n [(''command'', cmd), (''paths'', str_of paths)] (sections cp3)\<rparr>"
  have m2: "map_of (sections cp2) n = Some []"
    by (auto simp: cp2_def cp1_def has_section_def update_conv' map_add_def)
  have m3: "map_of (sections cp3) n = Some [(''command'', cmd)]"
    by (simp add: cp3_def update_conv')
  have m4: "map_of (sections cp4) n = Some [(''command'', cmd), (''paths'', str_of paths)]"
    by (simp add: cp4_def update_conv')
  have d: "defaults cp4 = defaults cp"
    by (simp add: cp4_def cp3_def cp2_def cp1_def)
  have s1: "set_option cp2 n ''command'' cmd = Inr cp3"
    using set_option_section[OF assms(1,2) m2 assms(3), of "''command''"]
    by (simp add: optionxform_command cp3_def)
  have s2: "set_option cp3 n ''paths'' (str_of paths) = Inr cp4"
    using set_option_section[OF assms(1,2) m3 assms(4), of "''paths''"]
    by (simp add: optionxform_paths cp4_def)
  have "setitem cp (Some n) [(''command'', Str cmd), (''paths'', paths)]
        = set_items cp2 n [(''command'', Str cmd), (''paths'', paths)]"
    using assms(2) by (simp add: setitem_def cp1_def cp2_def Let_def)
  also have "\<dots> = Inr cp4"
    by (simp add: optionxform_command optionxform_paths s1 s2)
  finally show ?thesis using m4 d by blast
qed

lemma config_lookup_section:
  assumes "n \<noteq> []" and "n \<noteq> default_section"
    and "map_of (sections cp) n = Some d" and "map_of d (optionxform key) = Some v"
    and "CHR ''%'' \<notin> set v"
  shows "config_lookup cp (Some n) key = Inr v"
  using assms
  by (simp add: config_lookup_def getitem_def has_section_def proxy_getitem_def has_option_def
      get_def unify_values_def before_get_plain map_add_def)

section \<open>Registering a command\<close>

text \<open>
  A registration that nothing stops: the name is neither empty nor \<open>DEFAULT\<close>, the
  command and the paths hold no \<open>%\<close>, and the completion script (where there is one)
  and the store can be written. The run returns; the registry then gives the command
  and the \<open>str()\<close> of the paths argument for the name, the store holds the text of
  that registry, and nothing was launched.
\<close>

lemma main_registers:
  assumes "argc \<noteq> 1" and "load_config e w0 = Returned w" and "\<not> arg_docs a"
    and "arg_register a" and "\<not> arg_config a"
    and "arg_name a = Some n" and "n \<noteq> []" and "n \<noteq> default_section"
    and "resolve_command (config w) a = Inr cmd" and "CHR ''%'' \<notin> set cmd"
    and "CHR ''%'' \<notin> set (str_of (paths_argument a))"
    and "nt e \<or> writable e ''/etc/bash_completion.d/ahd.sh''"
    and "writable e (CONFIG_FILE_PATH e)"
  shows "\<exists>w'. main e argc a w0 = Returned w'
           \<and> config_lookup (config w') (Some n) ''command'' = Inr cmd
           \<and> config_lookup (config w') (Some n) ''paths'' = Inr (str_of (paths_argument a))
           \<and> files w' (file_named e w0 (CONFIG_FILE_PATH e)) = Some (config_write (config w'))
           \<and> launched w' = launched w0"
proof -
  obtain cp' where
    s: "setitem (config w) (Some n) [(''command'', Str cmd), (''paths'', paths_argument a)]
        = Inr cp'"
    and m: "map_of (sections cp') n
            = Some [(''command'', cmd), (''paths'', str_of (paths_argument a))]"
    using setitem_entry[OF assms(7,8,10,11)] by blast
  have k: "file_named e w0 (CONFIG_FILE_PATH e) = realpath e (cwd w) (CONFIG_FILE_PATH e)"
    using load_config_returned(3)[OF assms(2)] by (simp add: file_named_def)
  have "\<exists>w'. register_command e (Some n) cmd (paths_argument a) w = Returned w'
          \<and> config w' = cp'
          \<and> files w' (realpath e (cwd w) (CONFIG_FILE_PATH e)) = Some (config_write cp')
          \<and> launched w' = launched w"
    using s assms(12,13)
    by (cases "nt e")
      (simp_all add: register_command_def open_write_def and_then_def Let_def file_named_def)
  then obtain w' where
    r: "register_command e (Some n) cmd (paths_argument a) w = Returned w'"
    and c: "config w' = cp'"
    and f: "files w' (file_named e w0 (CONFIG_FILE_PATH e)) = Some (config_write cp')"
    and l: "launched w' = launched w0"
    unfolding k using load_config_returned(1)[OF assms(2)] by auto
  have "main e argc a w0 = Returned w'"
    using main_register[OF assms(1-4,9)] assms(5,6) r
    by (simp add: and_then_def config_command_def chdir_CURRENT_PATH)
  moreover have "config_lookup cp' (Some n) ''command'' = Inr cmd"
    by (rule config_lookup_section[OF assms(7,8) m]) (simp_all add: optionxform_command assms(10))
  moreover have "config_lookup cp' (Some n) ''paths'' = Inr (str_of (paths_argument a))"
    by (rule config_lookup_section[OF assms(7,8) m]) (simp_all add: optionxform_paths assms(11))
  ultimately show ?thesis using c f l by auto
qed

section \<open>The stored form of the paths and what is read back from it\<close>

text \<open>
  Line 101 makes \<open>arguments["<paths>"]\<close> a list whenever a path was given, and line 112
  stores the \<open>str()\<close> of it: a bracket, the \<open>repr\<close> of every element, separated by a
  comma and a space, and a bracket. One path gives a list of one element.
\<close>

lemma paths_argument_given:
  assumes "arg_paths a = Some paths" and "paths \<noteq> []"
  shows "paths_argument a = StrList (preprocess_paths paths)"
  using assms by (simp add: paths_argument_def)

lemma preprocess_paths_not_Nil: "preprocess_paths paths \<noteq> []"
  by (simp add: preprocess_paths_def split_not_Nil)

lemma preprocess_paths_single:
  assumes "CHR '','' \<notin> set paths"
  shows "preprocess_paths paths = [strip (replace (CHR 0x5C) ''/'' paths)]"
  using assms by (simp add: preprocess_paths_def split_without_sep)

lemma percent_free_stored:
  assumes "CHR ''%'' \<notin> set paths"
  shows "CHR ''%'' \<notin> set (str_of (StrList (preprocess_paths paths)))"
proof -
  have "CHR ''%'' \<notin> set (repr x)" if "x \<in> set (preprocess_paths paths)" for x
    using preprocess_paths_elements(4)[OF that, of "CHR ''%''"] assms
    by (simp add: repr_no_percent)
  then have "CHR ''%'' \<notin> \<Union> (set ` set (map repr (preprocess_paths paths)))"
    by auto
  moreover have "CHR ''%'' \<notin> set '', ''"
    by simp
  ultimately have "CHR ''%'' \<notin> set (join '', '' (map repr (preprocess_paths paths)))"
    using set_join[of "'', ''" "map repr (preprocess_paths paths)"] by blast
  then show ?thesis by simp
qed

lemma slice_brackets: "slice_1_m1 (''['' @ s @ '']'') = s"
  by (simp add: slice_1_m1_def)

lemma replace_slash_brackets:
  "replace (CHR ''/'') b (''['' @ s @ '']'') = ''['' @ replace (CHR ''/'') b s @ '']''"
  by (simp add: replace_def)

lemma replace_slash_separator: "replace (CHR ''/'') b '', '' = '', ''"
  by (simp add: replace_def)

lemma comma_free_host_repr:
  assumes "CHR '','' \<notin> set x"
  shows "CHR '','' \<notin> set (if nt e then replace (CHR ''/'') (sep e) (repr x) else repr x)"
proof -
  have r: "CHR '','' \<notin> set (repr x)"
    using assms by (rule repr_no_comma)
  have "CHR '','' \<notin> set (replace (CHR ''/'') (sep e) (repr x))"
    using r set_replace[of "CHR ''/''" "sep e" "repr x"] by (auto simp: sep_def)
  with r show ?thesis by simp
qed

text \<open>
  Lines 133 to 135 on the \<open>str()\<close> of a list \<open>xs\<close> of strings without a comma: one
  element for every element of \<open>xs\<close>, namely its \<open>repr\<close> (with the separators of the
  host), after a space for every element but the first.
\<close>

lemma path_list_stored:
  assumes "xs \<noteq> []" and "\<And>x. x \<in> set xs \<Longrightarrow> CHR '','' \<notin> set x"
  shows "path_list e (str_of (StrList xs))
         = hd (map (\<lambda>x. if nt e then replace (CHR ''/'') (sep e) (repr x) else repr x) xs)
           # map (\<lambda>y. CHR '' '' # y)
               (tl (map (\<lambda>x. if nt e then replace (CHR ''/'') (sep e) (repr x) else repr x) xs))"
proof -
  let ?f = "\<lambda>x. if nt e then replace (CHR ''/'') (sep e) (repr x) else repr x"
  have "slice_1_m1 (if nt e then replace (CHR ''/'') (sep e) (str_of (StrList xs))
                    else str_of (StrList xs))
        = join '', '' (map ?f xs)"
  proof (cases "nt e")
    case True
    have "map (replace (CHR ''/'') (sep e)) (map repr xs) = map ?f xs"
      using True by simp
    then show ?thesis
      using True
      by (simp only: str_of.simps if_True replace_slash_brackets slice_brackets replace_join
          replace_slash_separator)
  next
    case False
    have "map repr xs = map ?f xs"
      using False by simp
    then show ?thesis
      using False by (simp only: str_of.simps if_False slice_brackets)
  qed
  then have "path_list e (str_of (StrList xs)) = split (CHR '','') (join '', '' (map ?f xs))"
    by (simp only: path_list_def)
  also have "\<dots> = hd (map ?f xs) # map (\<lambda>y. CHR '' '' # y) (tl (map ?f xs))"
  proof (rule join_single_sep)
    fix y
    assume "y \<in> set (map ?f xs)"
    then obtain x where "x \<in> set xs" and "y = ?f x"
      unfolding set_map by blast
    then show "CHR '','' \<notin> set y"
      using comma_free_host_repr[OF assms(2), of x e] by simp
  next
    show "map ?f xs \<noteq> []" using assms(1) by simp
  qed
  finally show ?thesis .
qed


subsection \<open>Paths of printable characters without a quote\<close>

lemma repr_char_plain:
  assumes "isprintable c" and "c \<noteq> q" and "c \<noteq> CHR 0x5C"
  shows "repr_char q c = [c]"
proof -
  have "32 \<le> (of_char c :: nat)" and "(of_char c :: nat) \<noteq> 127"
    using assms(1) by (auto simp: isprintable_def Let_def)
  then show ?thesis
    using assms by (simp add: repr_char_def Let_def)
qed

lemma repr_plain:
  assumes "\<And>c. c \<in> set x \<Longrightarrow> isprintable c \<and> c \<noteq> CHR 0x27 \<and> c \<noteq> CHR 0x5C"
  shows "repr x = CHR 0x27 # x @ [CHR 0x27]"
proof -
  have "CHR 0x27 \<notin> set x"
    using assms by blast
  then have q: "repr_quote x = CHR 0x27"
    by (simp add: repr_quote_def)
  have "map (repr_char (CHR 0x27)) x = map (\<lambda>c. [c]) x"
    using assms by (simp add: repr_char_plain)
  then have "concat (map (repr_char (CHR 0x27)) x) = concat (map (\<lambda>c. [c]) x)"
    by (simp only:)
  then have "concat (map (repr_char (CHR 0x27)) x) = x"
    by simp
  with q show ?thesis by (simp add: repr_def)
qed

lemma isspace_space: "isspace (CHR '' '')"
  by (simp add: isspace_def)

lemma not_isspace_quote: "\<not> isspace (CHR 0x27)"
  by (simp add: isspace_def)

text \<open>
  What lines 137 and 138 make of such an element: \<open>strip\<close> takes the space in front
  away, deleting the quotes leaves the path.
\<close>

lemma quoted_element:
  assumes "CHR 0x27 \<notin> set y"
  shows "replace (CHR 0x27) [] (strip (CHR 0x27 # y @ [CHR 0x27])) = y"
    and "replace (CHR 0x27) [] (strip (CHR '' '' # CHR 0x27 # y @ [CHR 0x27])) = y"
proof -
  have s: "strip (CHR 0x27 # y @ [CHR 0x27]) = CHR 0x27 # y @ [CHR 0x27]"
    by (rule strip_fixed) (simp_all add: not_isspace_quote)
  have r: "replace (CHR 0x27) [] (CHR 0x27 # y @ [CHR 0x27]) = y"
    using assms by (simp add: replace_Cons replace_append replace_Nil replace_absent)
  show "replace (CHR 0x27) [] (strip (CHR 0x27 # y @ [CHR 0x27])) = y"
    by (simp only: s r)
  show "replace (CHR 0x27) [] (strip (CHR '' '' # CHR 0x27 # y @ [CHR 0x27])) = y"
    by (simp only: strip_leading_space[OF isspace_space] s r)
qed

lemma host_repr_plain:
  assumes "\<And>c. c \<in> set x \<Longrightarrow> isprintable c \<and> c \<noteq> CHR 0x27 \<and> c \<noteq> CHR 0x5C"
  shows "(if nt e then replace (CHR ''/'') (sep e) (repr x) else repr x)
         = CHR 0x27 # (if nt e then replace (CHR ''/'') (sep e) x else x) @ [CHR 0x27]"
  by (simp add: repr_plain[OF assms] replace_Cons replace_append replace_Nil)

lemma host_path_quote_free:
  assumes "CHR 0x27 \<notin> set x"
  shows "CHR 0x27 \<notin> set (if nt e then replace (CHR ''/'') (sep e) x else x)"
  using assms set_replace[of "CHR ''/''" "sep e" x] by (auto simp: sep_def)

lemma plain_elements:
  assumes "\<forall>c\<in>set paths. isprintable c \<and> c \<noteq> CHR 0x27"
    and "x \<in> set (preprocess_paths paths)" and "c \<in> set x"
  shows "isprintable c \<and> c \<noteq> CHR 0x27 \<and> c \<noteq> CHR 0x5C"
proof -
  have "c \<noteq> CHR 0x5C"
    using preprocess_paths_elements(2)[OF assms(2)] assms(3) by blast
  moreover have "c \<in> set paths \<or> c = CHR ''/''"
    using preprocess_paths_elements(4)[OF assms(2), of c] assms(3) by blast
  moreover have "isprintable (CHR ''/'')"
    by (simp add: isprintable_def)
  ultimately show ?thesis using assms(1) by auto
qed

text \<open>
  The directories of lines 137 and 138 for the \<open>str()\<close> of a list of such paths are
  the paths themselves, with the separators of the host.
\<close>

lemma directories_of_stored:
  assumes "xs \<noteq> []" and "\<And>x. x \<in> set xs \<Longrightarrow> CHR '','' \<notin> set x"
    and "\<And>x c. x \<in> set xs \<Longrightarrow> c \<in> set x
          \<Longrightarrow> isprintable c \<and> c \<noteq> CHR 0x27 \<and> c \<noteq> CHR 0x5C"
  shows "map (\<lambda>d. replace (CHR 0x27) [] (strip d)) (path_list e (str_of (StrList xs)))
         = map (\<lambda>x. if nt e then replace (CHR ''/'') (sep e) x else x) xs"
proof -
  define f where "f = (\<lambda>x. if nt e then replace (CHR ''/'') (sep e) (repr x) else repr x)"
  define g where "g = (\<lambda>x. if nt e then replace (CHR ''/'') (sep e) x else x)"
  define R where "R = (\<lambda>d. replace (CHR 0x27) [] (strip d))"
  obtain x xs' where xs: "xs = x # xs'"
    using assms(1) by (cases xs) auto
  have q: "CHR 0x27 \<notin> set (g z)" if "z \<in> set xs" for z
    unfolding g_def using assms(3)[OF that] host_path_quote_free[of z e] by blast
  have f: "f z = CHR 0x27 # g z @ [CHR 0x27]" if "z \<in> set xs" for z
    unfolding f_def g_def using host_repr_plain[of z e] assms(3)[OF that] by blast
  have a: "R (f z) = g z" if "z \<in> set xs" for z
    using quoted_element(1)[OF q[OF that]] by (simp only: R_def f[OF that])
  have b: "R (CHR '' '' # f z) = g z" if "z \<in> set xs" for z
    using quoted_element(2)[OF q[OF that]] by (simp only: R_def f[OF that])
  have "path_list e (str_of (StrList xs))
        = hd (map f xs) # map (\<lambda>y. CHR '' '' # y) (tl (map f xs))"
    unfolding f_def by (rule path_list_stored[OF assms(1,2)])
  also have "\<dots> = f x # map (\<lambda>z. CHR '' '' # f z) xs'"
    by (simp add: xs comp_def)
  finally have p: "path_list e (str_of (StrList xs)) = f x # map (\<lambda>z. CHR '' '' # f z) xs'" .
  have "map R (path_list e (str_of (StrList xs)))
        = R (f x) # map (\<lambda>z. R (CHR '' '' # f z)) xs'"
    by (simp only: p list.map map_map comp_def)
  also have "\<dots> = g x # map g xs'"
    using a[of x] b by (simp add: xs)
  also have "\<dots> = map g xs"
    by (simp only: xs list.map)
  finally show ?thesis
    by (simp only: R_def g_def)
qed

section \<open>Registering paths and reading them back\<close>


lemma directories_of_stored_paths:
  assumes "\<forall>c\<in>set paths. isprintable c \<and> c \<noteq> CHR 0x27"
  shows "map (\<lambda>d. replace (CHR 0x27) [] (strip d))
           (path_list e (str_of (StrList (preprocess_paths paths))))
         = map (\<lambda>x. if nt e then replace (CHR ''/'') (sep e) x else x) (preprocess_paths paths)"
  by (rule directories_of_stored)
    (rule preprocess_paths_not_Nil, rule preprocess_paths_elements(1), assumption,
     rule plain_elements[OF assms])

lemma percent_free_paths_argument:
  assumes "arg_paths a = Some paths" and "paths \<noteq> []" and "CHR ''%'' \<notin> set paths"
  shows "CHR ''%'' \<notin> set (str_of (paths_argument a))"
  unfolding paths_argument_given[OF assms(1,2)]
  by (rule percent_free_stored[OF assms(3)])


text \<open>
  A registration with a paths argument, in which neither the command nor the paths
  hold a \<open>%\<close>, that nothing stops.
\<close>

lemma main_registers_paths:
  assumes "argc \<noteq> 1" and "load_config e w0 = Returned w" and "\<not> arg_docs a"
    and "arg_register a" and "\<not> arg_config a"
    and "arg_name a = Some n" and "n \<noteq> []" and "n \<noteq> default_section"
    and "resolve_command (config w) a = Inr cmd" and "CHR ''%'' \<notin> set cmd"
    and "arg_paths a = Some paths" and "paths \<noteq> []" and "CHR ''%'' \<notin> set paths"
    and "nt e \<or> writable e ''/etc/bash_completion.d/ahd.sh''"
    and "writable e (CONFIG_FILE_PATH e)"
  shows "\<exists>w'. main e argc a w0 = Returned w'
           \<and> config_lookup (config w') (Some n) ''paths''
               = Inr (str_of (StrList (preprocess_paths paths)))
           \<and> files w' (file_named e w0 (CONFIG_FILE_PATH e)) = Some (config_write (config w'))"
proof -
  have pc: "CHR ''%'' \<notin> set (str_of (paths_argument a))"
    using assms(11,12,13) by (rule percent_free_paths_argument)
  obtain w' where "main e argc a w0 = Returned w'"
    and "config_lookup (config w') (Some n) ''paths'' = Inr (str_of (paths_argument a))"
    and "files w' (file_named e w0 (CONFIG_FILE_PATH e)) = Some (config_write (config w'))"
    using main_registers[OF assms(1-10) pc assms(14,15)] by (elim exE conjE) (rule that)
  then show ?thesis
    unfolding paths_argument_given[OF assms(11,12)] by (intro exI[of _ w'] conjI)
qed

text \<open>
  C2, as the claim states it, fails. Registering \<open>deploy\<close> with the one path \<open>/srv\<close>
  stores \<open>['/srv']\<close>, the \<open>str()\<close> of a list of one element, and not the bare path
  \<open>/srv\<close>: line 101 makes a list of every paths argument that is not empty, and no
  line takes a list of one element apart again.
\<close>

theorem single_path_is_not_stored_bare:
  "config_lookup
     (config (world_of (main posix_host 5
        (no_arguments\<lparr>arg_register := True, arg_name := Some ''deploy'',
           arg_command := Some ''./deploy.sh'', arg_paths := Some ''/srv''\<rparr>)
        (fresh store_files ''/home/u''))))
     (Some ''deploy'') ''paths''
   = Inr ''['/srv']''
   \<and> ''['/srv']'' \<noteq> ''/srv''"
proof (intro conjI)
  show "config_lookup
     (config (world_of (main posix_host 5
        (no_arguments\<lparr>arg_register := True, arg_name := Some ''deploy'',
           arg_command := Some ''./deploy.sh'', arg_paths := Some ''/srv''\<rparr>)
        (fresh store_files ''/home/u''))))
     (Some ''deploy'') ''paths''
   = Inr ''['/srv']''"
    by code_simp
  show "''['/srv']'' \<noteq> ''/srv''"
    by simp
qed

text \<open>
  C2, amended. A registration with one path (a paths argument that is not empty and
  has no comma), in which neither the command nor the path holds a \<open>%\<close>, and that
  nothing stops, stores a bracketed list of one element: a bracket, the \<open>repr\<close> of the
  path after \<open>_preprocess_paths\<close> (backslashes made slashes, white space trimmed), and
  a bracket; the store file holds the text of that registry. Lines 133 to 135 read
  one element back from it, the \<open>repr\<close> with the separators of the host. When the
  path is made of printable characters other than the single quote, the directory
  that lines 137 and 138 make of that element (trimmed, quotes deleted) is the
  preprocessed path itself, with the separators of the host.
\<close>

theorem register_single_path_stores_list:
  assumes "argc \<noteq> 1" and "load_config e w0 = Returned w" and "\<not> arg_docs a"
    and "arg_register a" and "\<not> arg_config a"
    and "arg_name a = Some n" and "n \<noteq> []" and "n \<noteq> default_section"
    and "resolve_command (config w) a = Inr cmd" and "CHR ''%'' \<notin> set cmd"
    and "arg_paths a = Some paths" and "paths \<noteq> []" and "CHR ''%'' \<notin> set paths"
    and "nt e \<or> writable e ''/etc/bash_completion.d/ahd.sh''"
    and "writable e (CONFIG_FILE_PATH e)"
    and "CHR '','' \<notin> set paths"
  shows "\<exists>w'. main e argc a w0 = Returned w'
           \<and> config_lookup (config w') (Some n) ''paths''
               = Inr (''['' @ repr (strip (replace (CHR 0x5C) ''/'' paths)) @ '']'')
           \<and> files w' (file_named e w0 (CONFIG_FILE_PATH e)) = Some (config_write (config w'))
           \<and> path_list e (''['' @ repr (strip (replace (CHR 0x5C) ''/'' paths)) @ '']'')
               = [if nt e
                  then replace (CHR ''/'') (sep e) (repr (strip (replace (CHR 0x5C) ''/'' paths)))
                  else repr (strip (replace (CHR 0x5C) ''/'' paths))]
           \<and> ((\<forall>c\<in>set paths. isprintable c \<and> c \<noteq> CHR 0x27) \<longrightarrow>
                map (\<lambda>d. replace (CHR 0x27) [] (strip d))
                  (path_list e (''['' @ repr (strip (replace (CHR 0x5C) ''/'' paths)) @ '']''))
                = [if nt e
                   then replace (CHR ''/'') (sep e) (strip (replace (CHR 0x5C) ''/'' paths))
                   else strip (replace (CHR 0x5C) ''/'' paths)])"
proof -
  let ?p = "strip (replace (CHR 0x5C) ''/'' paths)"
  let ?stored = "''['' @ repr ?p @ '']''"
  have pp: "preprocess_paths paths = [?p]"
    using assms(16) by (rule preprocess_paths_single)
  have st: "str_of (StrList [?p]) = ?stored"
    by simp
  obtain w' where m: "main e argc a w0 = Returned w'"
    and l: "config_lookup (config w') (Some n) ''paths''
            = Inr (str_of (StrList (preprocess_paths paths)))"
    and f: "files w' (file_named e w0 (CONFIG_FILE_PATH e)) = Some (config_write (config w'))"
    using main_registers_paths[OF assms(1-15)] by (elim exE conjE) (rule that)
  have "path_list e (str_of (StrList [?p]))
        = hd (map (\<lambda>x. if nt e then replace (CHR ''/'') (sep e) (repr x) else repr x) [?p])
          # map (\<lambda>y. CHR '' '' # y)
              (tl (map (\<lambda>x. if nt e then replace (CHR ''/'') (sep e) (repr x) else repr x) [?p]))"
  proof (rule path_list_stored)
    fix x
    assume "x \<in> set [?p]"
    then have "x \<in> set (preprocess_paths paths)" by (simp only: pp)
    then show "CHR '','' \<notin> set x" by (rule preprocess_paths_elements(1))
  qed simp
  then have pl: "path_list e ?stored
        = [if nt e then replace (CHR ''/'') (sep e) (repr ?p) else repr ?p]"
    by (simp only: st list.map list.sel)
  have d: "map (\<lambda>d. replace (CHR 0x27) [] (strip d)) (path_list e ?stored)
           = [if nt e then replace (CHR ''/'') (sep e) ?p else ?p]"
    if "\<forall>c\<in>set paths. isprintable c \<and> c \<noteq> CHR 0x27"
  proof -
    have "map (\<lambda>d. replace (CHR 0x27) [] (strip d))
            (path_list e (str_of (StrList (preprocess_paths paths))))
          = map (\<lambda>x. if nt e then replace (CHR ''/'') (sep e) x else x) (preprocess_paths paths)"
      using that by (rule directories_of_stored_paths)
    then show ?thesis
      by (simp only: pp st list.map)
  qed
  show ?thesis
  proof (intro exI[of _ w'] conjI impI)
    show "main e argc a w0 = Returned w'"
      by (rule m)
    show "config_lookup (config w') (Some n) ''paths'' = Inr ?stored"
      using l by (simp only: pp st)
    show "files w' (file_named e w0 (CONFIG_FILE_PATH e)) = Some (config_write (config w'))"
      by (rule f)
    show "path_list e ?stored = [if nt e then replace (CHR ''/'') (sep e) (repr ?p) else repr ?p]"
      by (rule pl)
    assume "\<forall>c\<in>set paths. isprintable c \<and> c \<noteq> CHR 0x27"
    then show "map (\<lambda>d. replace (CHR 0x27) [] (strip d)) (path_list e ?stored)
               = [if nt e then replace (CHR ''/'') (sep e) ?p else ?p]"
      by (rule d)
  qed
qed

text \<open>
  The witness registers \<open>deploy\<close> with one path, the directory \<open>shop\<close> in \<open>Sites\<close> on
  drive \<open>C:\<close>, written with backslashes and with a space on either side.
\<close>

theorem register_single_path_stores_list_witness:
  "\<exists>w'. main posix_host 5
          (no_arguments\<lparr>arg_register := True, arg_name := Some ''deploy'',
             arg_command := Some ''./deploy.sh'',
             arg_paths := Some ('' C:'' @ [CHR 0x5C] @ ''Sites'' @ [CHR 0x5C] @ ''shop '')\<rparr>)
          (fresh store_files ''/home/u'') = Returned w'
     \<and> config_lookup (config w') (Some ''deploy'') ''paths'' = Inr ''['C:/Sites/shop']''
     \<and> files w' ''/opt/ahd/.ahdconfig'' = Some (config_write (config w'))
     \<and> path_list posix_host ''['C:/Sites/shop']'' = [[CHR 0x27] @ ''C:/Sites/shop'' @ [CHR 0x27]]
     \<and> map (\<lambda>d. replace (CHR 0x27) [] (strip d)) (path_list posix_host ''['C:/Sites/shop']'')
       = [''C:/Sites/shop'']"
proof -
  let ?paths = "'' C:'' @ [CHR 0x5C] @ ''Sites'' @ [CHR 0x5C] @ ''shop ''"
  let ?a = "no_arguments\<lparr>arg_register := True, arg_name := Some ''deploy'',
             arg_command := Some ''./deploy.sh'', arg_paths := Some ?paths\<rparr>"
  let ?s = "fresh store_files ''/home/u''"
  let ?w = "(fresh store_files ''/home/u'')\<lparr>config := build_registry\<rparr>"
  let ?p = "strip (replace (CHR 0x5C) ''/'' ?paths)"
  have r: "resolve_command (config ?w) ?a = Inr ''./deploy.sh''"
    by code_simp
  have p: "?p = ''C:/Sites/shop''"
    by code_simp
  have plain: "\<forall>c\<in>set ?paths. isprintable c \<and> c \<noteq> CHR 0x27"
    by code_simp
  have s: "''['' @ repr ''C:/Sites/shop'' @ '']'' = ''['C:/Sites/shop']''"
    by code_simp
  have q: "repr ''C:/Sites/shop'' = [CHR 0x27] @ ''C:/Sites/shop'' @ [CHR 0x27]"
    by code_simp
  have c: "file_named posix_host ?s (CONFIG_FILE_PATH posix_host) = ''/opt/ahd/.ahdconfig''"
    by (simp add: CONFIG_FILE_PATH_def posix_host_def sep_def file_named_def
        example_realpath_def startswith_def)
  have n: "\<not> nt posix_host"
    by (simp add: posix_host_def)
  have "\<exists>w'. main posix_host 5 ?a ?s = Returned w'
           \<and> config_lookup (config w') (Some ''deploy'') ''paths'' = Inr (''['' @ repr ?p @ '']'')
           \<and> files w' (file_named posix_host ?s (CONFIG_FILE_PATH posix_host))
               = Some (config_write (config w'))
           \<and> path_list posix_host (''['' @ repr ?p @ '']'')
               = [if nt posix_host then replace (CHR ''/'') (sep posix_host) (repr ?p)
                  else repr ?p]
           \<and> ((\<forall>c\<in>set ?paths. isprintable c \<and> c \<noteq> CHR 0x27) \<longrightarrow>
                map (\<lambda>d. replace (CHR 0x27) [] (strip d))
                  (path_list posix_host (''['' @ repr ?p @ '']''))
                = [if nt posix_host then replace (CHR ''/'') (sep posix_host) ?p else ?p])"
    by (rule register_single_path_stores_list[OF _ load_store_files _ _ _ _ _ _ r])
      (simp_all add: no_arguments_def posix_host_def default_section_def)
  then show ?thesis
  proof (elim exE conjE)
    fix w'
    assume m: "main posix_host 5 ?a ?s = Returned w'"
      and l: "config_lookup (config w') (Some ''deploy'') ''paths''
              = Inr (''['' @ repr ?p @ '']'')"
      and f: "files w' (file_named posix_host ?s (CONFIG_FILE_PATH posix_host))
              = Some (config_write (config w'))"
      and pl: "path_list posix_host (''['' @ repr ?p @ '']'')
               = [if nt posix_host then replace (CHR ''/'') (sep posix_host) (repr ?p)
                  else repr ?p]"
      and d: "(\<forall>c\<in>set ?paths. isprintable c \<and> c \<noteq> CHR 0x27) \<longrightarrow>
                map (\<lambda>d. replace (CHR 0x27) [] (strip d))
                  (path_list posix_host (''['' @ repr ?p @ '']''))
                = [if nt posix_host then replace (CHR ''/'') (sep posix_host) ?p else ?p]"
    show ?thesis
    proof (intro exI[of _ w'] conjI)
      show "main posix_host 5 ?a ?s = Returned w'"
        by (rule m)
      show "config_lookup (config w') (Some ''deploy'') ''paths'' = Inr ''['C:/Sites/shop']''"
        using l by (simp only: p s)
      show "files w' ''/opt/ahd/.ahdconfig'' = Some (config_write (config w'))"
        using f by (simp only: c)
      have "path_list posix_host ''['C:/Sites/shop']'' = [repr ''C:/Sites/shop'']"
        using pl n by (simp only: p s if_False)
      then show "path_list posix_host ''['C:/Sites/shop']''
            = [[CHR 0x27] @ ''C:/Sites/shop'' @ [CHR 0x27]]"
        by (simp only: q)
      show "map (\<lambda>d. replace (CHR 0x27) [] (strip d)) (path_list posix_host ''['C:/Sites/shop']'')
            = [''C:/Sites/shop'']"
        using d[THEN mp, OF plain] n by (simp only: p s if_False)
    qed
  qed
qed




end
